theory Spec2Isabelle
  imports Complex_Main
begin

section \<open>Numbers\<close>

text \<open>
  The engine computes on JavaScript numbers. They are embedded as exact reals: the
  properties below are about clamping, renormalising and rounding to four decimals, not
  about the last bits of a double. Where the source can produce a value that is not a
  finite number (\<^verbatim>\<open>NaN\<close>, \<^verbatim>\<open>-Infinity\<close>), the embedding returns
  \<open>None\<close> and writes out what the source does with that value.

  \<^verbatim>\<open>Math.round(x)\<close> is the nearest integer, a tie going up.
\<close>

definition js_round :: "real \<Rightarrow> int" where
  "js_round x = \<lfloor>x + 1 / 2\<rfloor>"

text \<open>\<^verbatim>\<open>Math.round(x * 10000) / 10000\<close>\<close>

definition round4 :: "real \<Rightarrow> real" where
  "round4 x = real_of_int (js_round (x * 10000)) / 10000"

text \<open>\<^verbatim>\<open>Math.max(lo, Math.min(hi, v))\<close>\<close>

definition clamp :: "real \<Rightarrow> real \<Rightarrow> real \<Rightarrow> real" where
  "clamp v lo hi = max lo (min hi v)"

section \<open>Core types (core/types.ts)\<close>

datatype ActionBucket = CTR_FIX | STRIKING_DISTANCE | RELEVANCE_REBUILD | LOCAL_BOOST | MONITOR

datatype ModelId = claude | openai | gemini | grok

text \<open>\<^verbatim>\<open>keyof WeightConfig\<close>, in the key order of \<^verbatim>\<open>DEFAULT_WEIGHTS\<close>.\<close>

datatype WeightKey = K_impressions | K_position | K_ctrGap | K_conversions | K_freshness

record WeightConfig =
  w_impressions :: real
  w_position :: real
  w_ctrGap :: real
  w_conversions :: real
  w_freshness :: real

record LearningConfig =
  learningRate :: real
  minWeight :: real
  maxWeight :: real

record WeightAdjustment =
  weight :: WeightKey
  oldValue :: real
  newValue :: real
  reason :: string

text \<open>The fields of \<^verbatim>\<open>SEOAction\<close> that the content weight adjuster reads.\<close>

record SEOAction =
  a_url :: string
  actionType :: ActionBucket
  originalClicks :: real
  originalImpressions :: real
  originalCtr :: real
  originalPosition :: real
  resultClicks :: "real option"
  resultImpressions :: "real option"
  resultCtr :: "real option"
  resultPosition :: "real option"
  learningApplied :: bool

section \<open>Constants (core/constants.ts)\<close>

definition DEFAULT_WEIGHTS :: WeightConfig where
  "DEFAULT_WEIGHTS = \<lparr> w_impressions = 0.20, w_position = 0.20, w_ctrGap = 0.20,
     w_conversions = 0.20, w_freshness = 0.20 \<rparr>"

definition DEFAULT_LEARNING_CONFIG :: LearningConfig where
  "DEFAULT_LEARNING_CONFIG = \<lparr> learningRate = 0.015, minWeight = 0.05, maxWeight = 0.50 \<rparr>"

datatype Metric = M_ctr | M_position | M_impressions | M_clicks

text \<open>\<^verbatim>\<open>SUCCESS_CRITERIA\<close>: the metric and the required improvement of each bucket.\<close>

fun SUCCESS_CRITERIA :: "ActionBucket \<Rightarrow> Metric \<times> real" where
  "SUCCESS_CRITERIA CTR_FIX = (M_ctr, 0.20)"
| "SUCCESS_CRITERIA STRIKING_DISTANCE = (M_position, 2)"
| "SUCCESS_CRITERIA RELEVANCE_REBUILD = (M_impressions, 0.50)"
| "SUCCESS_CRITERIA LOCAL_BOOST = (M_clicks, 0.30)"
| "SUCCESS_CRITERIA MONITOR = (M_position, 0)"

section \<open>Content weight adjuster (learning/weight-adjuster.ts)\<close>

record WeightAdjuster =
  weights :: WeightConfig
  config :: LearningConfig
  learningCycles :: nat

definition getW :: "WeightConfig \<Rightarrow> WeightKey \<Rightarrow> real" where
  "getW w k = (case k of K_impressions \<Rightarrow> w_impressions w | K_position \<Rightarrow> w_position w
     | K_ctrGap \<Rightarrow> w_ctrGap w | K_conversions \<Rightarrow> w_conversions w | K_freshness \<Rightarrow> w_freshness w)"

definition setW :: "WeightConfig \<Rightarrow> WeightKey \<Rightarrow> real \<Rightarrow> WeightConfig" where
  "setW w k v = (case k of K_impressions \<Rightarrow> w\<lparr>w_impressions := v\<rparr>
     | K_position \<Rightarrow> w\<lparr>w_position := v\<rparr> | K_ctrGap \<Rightarrow> w\<lparr>w_ctrGap := v\<rparr>
     | K_conversions \<Rightarrow> w\<lparr>w_conversions := v\<rparr> | K_freshness \<Rightarrow> w\<lparr>w_freshness := v\<rparr>)"

text \<open>
  The relative or absolute change of the bucket's metric. A missing result reads as the
  original value; a relative change from a base that is not positive is 0.
\<close>

definition metricDelta :: "Metric \<Rightarrow> SEOAction \<Rightarrow> real" where
  "metricDelta m a = (case m of
      M_ctr \<Rightarrow> (let baseValue = originalCtr a;
                    resultValue = (case resultCtr a of None \<Rightarrow> baseValue | Some r \<Rightarrow> r)
                in if baseValue > 0 then (resultValue - baseValue) / baseValue else 0)
    | M_position \<Rightarrow> (let baseValue = originalPosition a;
                    resultValue = (case resultPosition a of None \<Rightarrow> baseValue | Some r \<Rightarrow> r)
                in baseValue - resultValue)
    | M_impressions \<Rightarrow> (let baseValue = originalImpressions a;
                    resultValue = (case resultImpressions a of None \<Rightarrow> baseValue | Some r \<Rightarrow> r)
                in if baseValue > 0 then (resultValue - baseValue) / baseValue else 0)
    | M_clicks \<Rightarrow> (let baseValue = originalClicks a;
                    resultValue = (case resultClicks a of None \<Rightarrow> baseValue | Some r \<Rightarrow> r)
                in if baseValue > 0 then (resultValue - baseValue) / baseValue else 0))"

text \<open>
  \<^verbatim>\<open>Math.min(Math.max(delta / improvement, 0), 1)\<close>. The MONITOR bucket has
  improvement 0: the quotient is then \<^verbatim>\<open>Infinity\<close> (score 1), \<^verbatim>\<open>-Infinity\<close>
  (score 0) or, for delta 0, \<^verbatim>\<open>NaN\<close> (\<open>None\<close>).
\<close>

definition successScoreOf :: "real \<Rightarrow> real \<Rightarrow> real option" where
  "successScoreOf delta improvement =
     (if improvement = 0
      then (if delta > 0 then Some 1 else if delta < 0 then Some 0 else None)
      else Some (min (max (delta / improvement) 0) 1))"

text \<open>\<^verbatim>\<open>evaluateActionSuccess\<close>: the pair (success, score).\<close>

definition evaluateActionSuccess :: "SEOAction \<Rightarrow> bool \<times> real option" where
  "evaluateActionSuccess a =
     (let (metric, improvement) = SUCCESS_CRITERIA (actionType a);
          delta = metricDelta metric a
      in (delta \<ge> improvement, successScoreOf delta improvement))"

fun getWeightKeyForBucket :: "ActionBucket \<Rightarrow> WeightKey" where
  "getWeightKeyForBucket CTR_FIX = K_ctrGap"
| "getWeightKeyForBucket STRIKING_DISTANCE = K_position"
| "getWeightKeyForBucket RELEVANCE_REBUILD = K_impressions"
| "getWeightKeyForBucket LOCAL_BOOST = K_conversions"
| "getWeightKeyForBucket MONITOR = K_freshness"

text \<open>
  \<^verbatim>\<open>applyAdjustment\<close>: the step is scaled by the learning rate and the new value
  clamped; a change below 0.0001 is dropped and leaves the weight as it was.
\<close>

definition applyAdjustment ::
  "WeightAdjuster \<Rightarrow> WeightKey \<Rightarrow> real \<Rightarrow> string \<Rightarrow> WeightAdjustment option \<times> WeightAdjuster" where
  "applyAdjustment s weightKey delta rsn =
     (let old = getW (weights s) weightKey;
          adjustment = delta * learningRate (config s);
          new = clamp (old + adjustment) (minWeight (config s)) (maxWeight (config s))
      in if \<bar>new - old\<bar> < 0.0001 then (None, s)
         else (Some \<lparr> weight = weightKey, oldValue = round4 old, newValue = round4 new,
                      reason = rsn \<rparr>,
               s\<lparr>weights := setW (weights s) weightKey new\<rparr>))"

text \<open>\<^verbatim>\<open>Object.values(this.weights).reduce((sum, val) => sum + val, 0)\<close>\<close>

definition totalWeight :: "WeightConfig \<Rightarrow> real" where
  "totalWeight w = 0 + w_impressions w + w_position w + w_ctrGap w + w_conversions w + w_freshness w"

definition normalizeWeights :: "WeightConfig \<Rightarrow> WeightConfig" where
  "normalizeWeights w =
     (let total = totalWeight w
      in if total = 0 then w
         else \<lparr> w_impressions = round4 (w_impressions w / total),
                w_position = round4 (w_position w / total),
                w_ctrGap = round4 (w_ctrGap w / total),
                w_conversions = round4 (w_conversions w / total),
                w_freshness = round4 (w_freshness w / total) \<rparr>)"

fun bucketName :: "ActionBucket \<Rightarrow> string" where
  "bucketName CTR_FIX = ''CTR_FIX''"
| "bucketName STRIKING_DISTANCE = ''STRIKING_DISTANCE''"
| "bucketName RELEVANCE_REBUILD = ''RELEVANCE_REBUILD''"
| "bucketName LOCAL_BOOST = ''LOCAL_BOOST''"
| "bucketName MONITOR = ''MONITOR''"

text \<open>\<^verbatim>\<open>url.split('/').pop()\<close>: what follows the last slash.\<close>

definition lastSegment :: "string \<Rightarrow> string" where
  "lastSegment url = rev (takeWhile (\<lambda>c. c \<noteq> CHR ''/'') (rev url))"

text \<open>
  The loop body of \<^verbatim>\<open>runLearningCycle\<close> for an action that is not skipped:
  evaluate it, step the weight of its bucket by +1 or -0.5, and record the adjustment if
  there was one.
\<close>

definition processAction ::
  "WeightAdjuster \<times> WeightAdjustment list \<Rightarrow> SEOAction \<Rightarrow> WeightAdjuster \<times> WeightAdjustment list" where
  "processAction st a =
     (let (s, adjustments) = st;
          evaluation = evaluateActionSuccess a;
          weightKey = getWeightKeyForBucket (actionType a);
          delta = (if fst evaluation then 1 else - 0.5);
          rsn = (if fst evaluation
                 then bucketName (actionType a) @ '' success on '' @ lastSegment (a_url a)
                 else bucketName (actionType a) @ '' did not meet criteria on '' @ lastSegment (a_url a));
          (adjustment, s') = applyAdjustment s weightKey delta rsn
      in case adjustment of None \<Rightarrow> (s', adjustments)
         | Some adj \<Rightarrow> (s', adjustments @ [adj]))"

text \<open>The whole loop body: \<^verbatim>\<open>if (action.learningApplied) continue\<close> comes first.\<close>

definition learnFromAction ::
  "WeightAdjuster \<times> WeightAdjustment list \<Rightarrow> SEOAction \<Rightarrow> WeightAdjuster \<times> WeightAdjustment list" where
  "learnFromAction st a = (if learningApplied a then st else processAction st a)"

record LearningResult =
  newWeights :: WeightConfig
  adjustments :: "WeightAdjustment list"
  totalLearningCycles :: nat

text \<open>
  \<^verbatim>\<open>runLearningCycle\<close>: the loop over the actions in input order, then the
  renormalisation and the cycle counter. The adjuster after the call is returned with the
  result. The source assigns to no field of an action, so the actions are an input only.
\<close>

definition runLearningCycle :: "WeightAdjuster \<Rightarrow> SEOAction list \<Rightarrow> LearningResult \<times> WeightAdjuster" where
  "runLearningCycle s completedActions =
     (let (s1, adjs) = foldl learnFromAction (s, []) completedActions;
          s2 = s1\<lparr>weights := normalizeWeights (weights s1)\<rparr>;
          s3 = s2\<lparr>learningCycles := learningCycles s2 + 1\<rparr>
      in (\<lparr> newWeights = weights s3, adjustments = adjs,
             totalLearningCycles = learningCycles s3 \<rparr>, s3))"

text \<open>The constructor with every argument given.\<close>

definition createWeightAdjuster :: "WeightConfig \<Rightarrow> LearningConfig \<Rightarrow> nat \<Rightarrow> WeightAdjuster" where
  "createWeightAdjuster w c n = \<lparr> weights = w, config = c, learningCycles = n \<rparr>"

subsection \<open>Predicates on weight vectors\<close>

text \<open>Every component lies in \<open>[lo, hi]\<close>.\<close>

definition weightsWithin :: "real \<Rightarrow> real \<Rightarrow> WeightConfig \<Rightarrow> bool" where
  "weightsWithin lo hi w =
     (lo \<le> w_impressions w \<and> w_impressions w \<le> hi \<and> lo \<le> w_position w \<and> w_position w \<le> hi \<and>
      lo \<le> w_ctrGap w \<and> w_ctrGap w \<le> hi \<and> lo \<le> w_conversions w \<and> w_conversions w \<le> hi \<and>
      lo \<le> w_freshness w \<and> w_freshness w \<le> hi)"

text \<open>Every component is already a value rounded to four decimals.\<close>

definition roundedTo4 :: "WeightConfig \<Rightarrow> bool" where
  "roundedTo4 w =
     (round4 (w_impressions w) = w_impressions w \<and> round4 (w_position w) = w_position w \<and>
      round4 (w_ctrGap w) = w_ctrGap w \<and> round4 (w_conversions w) = w_conversions w \<and>
      round4 (w_freshness w) = w_freshness w)"

text \<open>The weights the adjuster holds when the loop has ended, before the renormalisation.\<close>

definition cycleWeights :: "WeightAdjuster \<Rightarrow> SEOAction list \<Rightarrow> WeightConfig" where
  "cycleWeights s acts = weights (fst (foldl learnFromAction (s, []) acts))"

section \<open>Model weight state manager (federation/model-weights.ts)\<close>

text \<open>
  A row \<^verbatim>\<open>Record<ModelId, number>\<close> is a map from model ids to numbers; a cell may be
  missing, which is what the \<^verbatim>\<open>??\<close> defaults of the source are for. The table has a
  row for every bucket.
\<close>

type_synonym BucketWeights = "ModelId \<rightharpoonup> real"

type_synonym ModelWeights = "ActionBucket \<Rightarrow> BucketWeights"

definition MODEL_IDS :: "ModelId list" where
  "MODEL_IDS = [claude, openai, gemini, grok]"

definition uniformRow :: BucketWeights where
  "uniformRow = [claude \<mapsto> 0.25, openai \<mapsto> 0.25, gemini \<mapsto> 0.25, grok \<mapsto> 0.25]"

definition DEFAULT_MODEL_WEIGHTS :: ModelWeights where
  "DEFAULT_MODEL_WEIGHTS = (\<lambda>bucket. uniformRow)"

text \<open>\<^verbatim>\<open>this.weights[bucket][modelId] ?? 0\<close>\<close>

definition getWeight :: "ModelWeights \<Rightarrow> ActionBucket \<Rightarrow> ModelId \<Rightarrow> real" where
  "getWeight w bucket modelId = (case w bucket modelId of None \<Rightarrow> 0 | Some v \<Rightarrow> v)"

text \<open>\<^verbatim>\<open>Object.values(bucketWeights).reduce((sum, v) => sum + v, 0)\<close>: the cells present.\<close>

definition rowTotal :: "BucketWeights \<Rightarrow> real" where
  "rowTotal row = sum_list (List.map_filter row MODEL_IDS)"

text \<open>
  \<^verbatim>\<open>normalizeBucket\<close>: a row whose total is 0 is left alone; otherwise every cell
  present is divided by the total and rounded to four decimals.
\<close>

definition normalizeBucket :: "ModelWeights \<Rightarrow> ActionBucket \<Rightarrow> ModelWeights" where
  "normalizeBucket w bucket =
     (let bucketWeights = w bucket; total = rowTotal bucketWeights
      in if total = 0 then w
         else w(bucket := (\<lambda>mid. map_option (\<lambda>v. round4 (v / total)) (bucketWeights mid))))"

text \<open>
  \<^verbatim>\<open>adjustWeight\<close>: a missing cell reads as 0.25; the cell is stepped, clamped and
  stored, then the row is renormalised.
\<close>

definition adjustWeight ::
  "ModelWeights \<Rightarrow> ActionBucket \<Rightarrow> ModelId \<Rightarrow> real \<Rightarrow> real \<Rightarrow> real \<Rightarrow> ModelWeights" where
  "adjustWeight w bucket modelId delta minW maxW =
     (let current = (case w bucket modelId of None \<Rightarrow> 0.25 | Some v \<Rightarrow> v);
          newValue = clamp (current + delta) minW maxW;
          w' = w(bucket := (w bucket)(modelId \<mapsto> newValue))
      in normalizeBucket w' bucket)"

section \<open>Model registry and task router (federation/registry.ts, federation/router.ts)\<close>

text \<open>
  The registry holds its adapters in registration order; here an adapter is its id and
  its \<^verbatim>\<open>available\<close> flag.
\<close>

type_synonym ModelRegistry = "(ModelId \<times> bool) list"

definition getAvailableIds :: "ModelRegistry \<Rightarrow> ModelId list" where
  "getAvailableIds registry = map fst (filter snd registry)"

datatype RouteStrategy = RS_all | RS_top2 | RS_primary_only

text \<open>
  The \<^verbatim>\<open>reason\<close> text of a decision, by its parts: the only model; or the primary
  with its weight as a whole percentage; or the number of models, the primary and that
  percentage.
\<close>

datatype RouteReason = OnlyOne ModelId | TwoAvailable ModelId int | ManyAvailable nat ModelId int

record RouteDecision =
  models :: "ModelId list"
  primary :: ModelId
  strategy :: RouteStrategy
  routeReason :: RouteReason

datatype error = NoModelsAvailable | AdapterRejected | AllAdaptersFailed | TypeError

text \<open>\<^verbatim>\<open>x.toFixed(0)\<close> as an integer: the nearest one, a tie going away from zero.\<close>

definition toFixed0 :: "real \<Rightarrow> int" where
  "toFixed0 x = (if x < 0 then - \<lfloor>- x + 1 / 2\<rfloor> else \<lfloor>x + 1 / 2\<rfloor>)"

text \<open>\<^verbatim>\<open>{ id, weight: bucketWeights[id] ?? 0 }\<close>\<close>

definition weightOrZero :: "BucketWeights \<Rightarrow> ModelId \<Rightarrow> real" where
  "weightOrZero bucketWeights mid = (case bucketWeights mid of None \<Rightarrow> 0 | Some v \<Rightarrow> v)"

text \<open>
  \<^verbatim>\<open>route\<close>. The sort by descending weight is stable, as \<^verbatim>\<open>Array.prototype.sort\<close>
  is: \<open>sort_key\<close> on the negated weight.
\<close>

definition route :: "ModelRegistry \<Rightarrow> ModelWeights \<Rightarrow> ActionBucket \<Rightarrow> error + RouteDecision" where
  "route registry modelWeights bucket =
     (let availableIds = getAvailableIds registry;
          bucketWeights = modelWeights bucket
      in if length availableIds = 0 then Inl NoModelsAvailable
         else if length availableIds = 1
         then Inr \<lparr> models = availableIds, primary = hd availableIds,
                    strategy = RS_primary_only, routeReason = OnlyOne (hd availableIds) \<rparr>
         else
           (let sorted = sort_key (\<lambda>e. - snd e)
                           (map (\<lambda>mid. (mid, weightOrZero bucketWeights mid)) availableIds);
                primaryId = fst (hd sorted)
            in if length availableIds = 2
               then Inr \<lparr> models = availableIds, primary = primaryId, strategy = RS_top2,
                          routeReason = TwoAvailable primaryId (toFixed0 (snd (hd sorted) * 100)) \<rparr>
               else Inr \<lparr> models = availableIds, primary = primaryId, strategy = RS_all,
                          routeReason = ManyAvailable (length availableIds) primaryId
                                          (toFixed0 (snd (hd sorted) * 100)) \<rparr>))"

section \<open>Pages and the CTR curve (core/types.ts, core/constants.ts)\<close>

datatype Intent = I_local | I_transactional | I_informational | I_mixed

record PageData =
  url :: string
  primaryKeyword :: string
  clicks :: real
  impressions :: real
  ctr :: real
  position :: real
  conversions :: real
  sessions :: real
  bounceRate :: real
  avgSessionDuration :: real
  intent :: Intent
  isLocalPage :: bool
  localKeywords :: "string list"
  freshnessScore :: real

datatype DataSource = DS_industry_average | DS_custom | DS_calculated

record CTRCurve =
  position1 :: real
  position2 :: real
  position3 :: real
  position4 :: real
  position5 :: real
  position6 :: real
  position7 :: real
  position8 :: real
  position9 :: real
  position10 :: real
  position11_20 :: real
  position21Plus :: real
  industry :: string
  dataSource :: DataSource

definition DEFAULT_CTR_CURVE :: CTRCurve where
  "DEFAULT_CTR_CURVE = \<lparr> position1 = 0.32, position2 = 0.20, position3 = 0.13, position4 = 0.09,
     position5 = 0.07, position6 = 0.05, position7 = 0.04, position8 = 0.03, position9 = 0.025,
     position10 = 0.02, position11_20 = 0.01, position21Plus = 0.005, industry = ''general'',
     dataSource = DS_industry_average \<rparr>"

definition getExpectedCTR :: "real \<Rightarrow> CTRCurve \<Rightarrow> real" where
  "getExpectedCTR pos_in curve =
     (let pos = js_round pos_in
      in if pos \<le> 0 then position1 curve
         else if pos = 1 then position1 curve
         else if pos = 2 then position2 curve
         else if pos = 3 then position3 curve
         else if pos = 4 then position4 curve
         else if pos = 5 then position5 curve
         else if pos = 6 then position6 curve
         else if pos = 7 then position7 curve
         else if pos = 8 then position8 curve
         else if pos = 9 then position9 curve
         else if pos = 10 then position10 curve
         else if pos \<le> 20 then position11_20 curve
         else position21Plus curve)"

text \<open>\<^verbatim>\<open>BucketCriteria\<close>, the nested objects flattened.\<close>

record BucketCriteria =
  ctrFix_minImpressions :: real
  ctrFix_ctrGapThreshold :: real
  striking_minPosition :: real
  striking_maxPosition :: real
  striking_minImpressions :: real
  rebuild_minPosition :: real
  rebuild_maxPosition :: real
  rebuild_minImpressions :: real
  localBoost_requiresLocalIntent :: bool
  monitor_maxPosition :: real

definition BUCKET_CRITERIA :: BucketCriteria where
  "BUCKET_CRITERIA = \<lparr> ctrFix_minImpressions = 500, ctrFix_ctrGapThreshold = 0.05,
     striking_minPosition = 4, striking_maxPosition = 10, striking_minImpressions = 100,
     rebuild_minPosition = 11, rebuild_maxPosition = 50, rebuild_minImpressions = 50,
     localBoost_requiresLocalIntent = True, monitor_maxPosition = 3 \<rparr>"

section \<open>Opportunity scorer (engine/scorer.ts)\<close>

text \<open>A JavaScript number that may fail to be finite: \<open>None\<close> is \<^verbatim>\<open>NaN\<close>.\<close>

type_synonym jsnumber = "real option"

text \<open>
  \<^verbatim>\<open>clamp(Math.log10(v + 1) / d, 0, 1)\<close>. The logarithm of a negative number is
  \<^verbatim>\<open>NaN\<close>, which both \<^verbatim>\<open>Math.min\<close> and \<^verbatim>\<open>Math.max\<close> pass on; the logarithm
  of 0 is \<^verbatim>\<open>-Infinity\<close>, which is clamped to 0.
\<close>

definition logScaled :: "real \<Rightarrow> real \<Rightarrow> jsnumber" where
  "logScaled v d =
     (if v + 1 < 0 then None
      else if v + 1 = 0 then Some 0
      else Some (clamp (log 10 (v + 1) / d) 0 1))"

definition normalizeImpressions :: "real \<Rightarrow> jsnumber" where
  "normalizeImpressions i = logScaled i 5.0"

definition normalizePosition :: "real \<Rightarrow> real" where
  "normalizePosition p = clamp ((50 - p) / 50.0) 0 1"

definition normalizeCTRGap :: "CTRCurve \<Rightarrow> real \<Rightarrow> real \<Rightarrow> real" where
  "normalizeCTRGap curve p actualCtr =
     (let expectedCtr = getExpectedCTR p curve
      in if expectedCtr \<le> 0 then 0
         else clamp ((expectedCtr - actualCtr) / expectedCtr) 0 1)"

definition normalizeConversions :: "real \<Rightarrow> jsnumber" where
  "normalizeConversions c = logScaled c 2.0"

definition normalizeFreshness :: "real \<Rightarrow> real" where
  "normalizeFreshness f = clamp f 0 1"

record NormalizedScores =
  n_impressions :: jsnumber
  n_position :: real
  n_ctrGap :: real
  n_conversions :: jsnumber
  n_freshness :: real

definition getNormalizedScores :: "CTRCurve \<Rightarrow> PageData \<Rightarrow> NormalizedScores" where
  "getNormalizedScores curve page =
     \<lparr> n_impressions = normalizeImpressions (impressions page),
       n_position = normalizePosition (position page),
       n_ctrGap = normalizeCTRGap curve (position page) (ctr page),
       n_conversions = normalizeConversions (conversions page),
       n_freshness = normalizeFreshness (freshnessScore page) \<rparr>"

text \<open>
  \<^verbatim>\<open>calculateScore\<close> of a scorer holding the weights \<open>w\<close> and the curve. A
  \<^verbatim>\<open>NaN\<close> component makes the weighted sum, and so the score, \<^verbatim>\<open>NaN\<close>.
\<close>

definition calculateScore :: "WeightConfig \<Rightarrow> CTRCurve \<Rightarrow> PageData \<Rightarrow> jsnumber" where
  "calculateScore w curve page =
     (let normalized = getNormalizedScores curve page
      in case (n_impressions normalized, n_conversions normalized) of
           (Some ni, Some nc) \<Rightarrow>
              Some (round4 (w_impressions w * ni + w_position w * n_position normalized +
                            w_ctrGap w * n_ctrGap normalized + w_conversions w * nc +
                            w_freshness w * n_freshness normalized))
         | _ \<Rightarrow> None)"

section \<open>Action bucket classifier (engine/bucketer.ts)\<close>

subsection \<open>Strings\<close>

text \<open>
  A string is a list of characters; nothing below uses more of a character than equality
  and, in the regular expressions, its code. The regular expressions have no
  \<^verbatim>\<open>u\<close> flag and name ASCII letters only: their word characters, white space and
  case folding are the ASCII ones.

  \<^verbatim>\<open>String.prototype.toLowerCase\<close> is a function of the platform, not of this
  repository: every function below that calls it takes it as the parameter \<open>lower\<close>,
  and what is proved about them holds for every such function. \<open>asciiLower\<close> is what
  it does on ASCII strings; the sample inputs are ASCII strings.
\<close>

definition charCode :: "char \<Rightarrow> nat" where
  "charCode c = of_char c"

definition isUpper :: "char \<Rightarrow> bool" where
  "isUpper c = (65 \<le> charCode c \<and> charCode c \<le> 90)"

definition isLower :: "char \<Rightarrow> bool" where
  "isLower c = (97 \<le> charCode c \<and> charCode c \<le> 122)"

definition isDigit :: "char \<Rightarrow> bool" where
  "isDigit c = (48 \<le> charCode c \<and> charCode c \<le> 57)"

definition isWordChar :: "char \<Rightarrow> bool" where
  "isWordChar c = (isUpper c \<or> isLower c \<or> isDigit c \<or> c = CHR ''_'')"

definition isSpace :: "char \<Rightarrow> bool" where
  "isSpace c = ((9 \<le> charCode c \<and> charCode c \<le> 13) \<or> charCode c = 32)"

definition lowerChar :: "char \<Rightarrow> char" where
  "lowerChar c = (if isUpper c then char_of (charCode c + 32) else c)"

text \<open>
  Lower-casing of the letters A to Z: the case folding of the \<^verbatim>\<open>i\<close> flag on the
  city names, and \<^verbatim>\<open>toLowerCase\<close> on ASCII strings.
\<close>

definition asciiLower :: "string \<Rightarrow> string" where
  "asciiLower s = map lowerChar s"

definition startsWith :: "string \<Rightarrow> string \<Rightarrow> bool" where
  "startsWith s k = (take (length k) s = k)"

text \<open>\<^verbatim>\<open>s.includes(k)\<close>\<close>

fun includesStr :: "string \<Rightarrow> string \<Rightarrow> bool" where
  "includesStr [] k = (k = [])"
| "includesStr (c # cs) k = (startsWith (c # cs) k \<or> includesStr cs k)"

text \<open>
  A regular expression is tried at every position of the string; the matcher at a
  position sees the character before it (for \<^verbatim>\<open>\b\<close>) and the rest of the string.
\<close>

fun testFrom :: "(char option \<Rightarrow> string \<Rightarrow> bool) \<Rightarrow> char option \<Rightarrow> string \<Rightarrow> bool" where
  "testFrom m prev [] = m prev []"
| "testFrom m prev (c # cs) = (m prev (c # cs) \<or> testFrom m (Some c) cs)"

definition regexTest :: "(char option \<Rightarrow> string \<Rightarrow> bool) \<Rightarrow> string \<Rightarrow> bool" where
  "regexTest m s = testFrom m None s"

text \<open>\<^verbatim>\<open>\b\<close> before a word character, and after one.\<close>

definition boundaryBefore :: "char option \<Rightarrow> bool" where
  "boundaryBefore prev = (case prev of None \<Rightarrow> True | Some p \<Rightarrow> \<not> isWordChar p)"

definition boundaryAfter :: "string \<Rightarrow> bool" where
  "boundaryAfter rest = (case rest of [] \<Rightarrow> True | c # _ \<Rightarrow> \<not> isWordChar c)"

definition cityNames :: "string list" where
  "cityNames = [''pittsburgh'', ''chicago'', ''new york'', ''los angeles'', ''houston'', ''phoenix'']"

text \<open>\<^verbatim>\<open>/\b(pittsburgh|chicago|new york|los angeles|houston|phoenix)\b/i\<close> at a position.\<close>

definition cityPattern :: "char option \<Rightarrow> string \<Rightarrow> bool" where
  "cityPattern prev s =
     (boundaryBefore prev \<and>
      list_ex (\<lambda>name. asciiLower (take (length name) s) = name \<and>
                       boundaryAfter (drop (length name) s)) cityNames)"

text \<open>
  \<^verbatim>\<open>/\b[A-Z][a-z]+,\s*[A-Z]{2}\b/\<close> at a position. The comma is no lower-case letter
  and a capital no white space, so each repetition takes its longest run.
\<close>

definition cityStatePattern :: "char option \<Rightarrow> string \<Rightarrow> bool" where
  "cityStatePattern prev s =
     (boundaryBefore prev \<and>
      (case s of [] \<Rightarrow> False
       | c # r \<Rightarrow> isUpper c \<and> takeWhile isLower r \<noteq> [] \<and>
           (case dropWhile isLower r of [] \<Rightarrow> False
            | d # r2 \<Rightarrow> d = CHR '','' \<and>
                (case dropWhile isSpace r2 of
                   u1 # u2 # r4 \<Rightarrow> isUpper u1 \<and> isUpper u2 \<and> boundaryAfter r4
                 | _ \<Rightarrow> False))))"

definition localKeywordIndicators :: "string list" where
  "localKeywordIndicators = [''near me'', ''nearby'', ''local'', ''in my area'', ''close to me'']"

subsection \<open>The classifier\<close>

definition isCTRFix :: "BucketCriteria \<Rightarrow> CTRCurve \<Rightarrow> PageData \<Rightarrow> bool" where
  "isCTRFix criteria curve page =
     (let expectedCtr = getExpectedCTR (position page) curve
      in impressions page \<ge> ctrFix_minImpressions criteria \<and>
         ctr page < expectedCtr * (1 - ctrFix_ctrGapThreshold criteria))"

definition isStrikingDistance :: "BucketCriteria \<Rightarrow> PageData \<Rightarrow> bool" where
  "isStrikingDistance criteria page =
     (position page \<ge> striking_minPosition criteria \<and>
      position page \<le> striking_maxPosition criteria \<and>
      impressions page \<ge> striking_minImpressions criteria)"

definition isRelevanceRebuild :: "BucketCriteria \<Rightarrow> PageData \<Rightarrow> bool" where
  "isRelevanceRebuild criteria page =
     (position page \<ge> rebuild_minPosition criteria \<and>
      position page \<le> rebuild_maxPosition criteria \<and>
      impressions page \<ge> rebuild_minImpressions criteria)"

definition detectLocalIntent :: "(string \<Rightarrow> string) \<Rightarrow> PageData \<Rightarrow> bool" where
  "detectLocalIntent lower page =
     (let urlAndKeyword = lower (url page @ '' '' @ primaryKeyword page)
      in if list_ex (\<lambda>keyword. includesStr urlAndKeyword (lower keyword)) localKeywordIndicators
         then True
         else if regexTest cityPattern urlAndKeyword \<or> regexTest cityStatePattern urlAndKeyword
         then True
         else if length (localKeywords page) > 0 then True
         else False)"

definition isLocalBoost :: "(string \<Rightarrow> string) \<Rightarrow> PageData \<Rightarrow> bool" where
  "isLocalBoost lower page =
     (if \<not> isLocalPage page \<and> intent page \<noteq> I_local \<and> \<not> detectLocalIntent lower page then False
      else position page > 3)"

definition isMonitor :: "BucketCriteria \<Rightarrow> PageData \<Rightarrow> bool" where
  "isMonitor criteria page = (position page \<le> monitor_maxPosition criteria)"

definition classify ::
  "(string \<Rightarrow> string) \<Rightarrow> BucketCriteria \<Rightarrow> CTRCurve \<Rightarrow> PageData \<Rightarrow> ActionBucket" where
  "classify lower criteria curve page =
     (if isMonitor criteria page then MONITOR
      else if isCTRFix criteria curve page then CTR_FIX
      else if isStrikingDistance criteria page then STRIKING_DISTANCE
      else if isLocalBoost lower page then LOCAL_BOOST
      else if isRelevanceRebuild criteria page then RELEVANCE_REBUILD
      else MONITOR)"

section \<open>Content briefs (core/types.ts)\<close>

datatype BriefStatus = S_draft | S_approved | S_executing | S_completed | S_cancelled

text \<open>The metrics an adapter snapshots into a brief.\<close>

record MetricsSnapshot =
  ms_clicks :: real
  ms_impressions :: real
  ms_ctr :: real
  ms_position :: real
  ms_conversions :: real

record ContentBrief =
  b_id :: "string option"
  b_url :: string
  targetKeyword :: string
  briefBucket :: ActionBucket
  titleRecommendations :: "string list"
  h1Recommendation :: string
  metaDescription :: string
  targetWordCount :: real
  h2Additions :: "string list"
  internalLinks :: "(string \<times> string) list"
  priorityTasks :: "string list"
  schemaStack :: "string list"
  keywordDensityTarget :: string
  mandatoryPlacements :: "string list"
  metricsSnapshot :: "MetricsSnapshot option"
  status :: BriefStatus
  contentWriterJobId :: "string option"
  generatedContent :: "string option"
  generatedWordCount :: "real option"
  generatedBy :: "ModelId option"
  contributingModels :: "ModelId list option"
  consensusConfidence :: "jsnumber option"

section \<open>Consensus engine (federation/consensus.ts, federation/types.ts)\<close>

text \<open>
  Of an adapter the engine uses the id and \<^verbatim>\<open>generateBrief\<close>; a call that rejects
  returns \<open>None\<close>.
\<close>

record ModelAdapter =
  adapterId :: ModelId
  generateBrief :: "PageData \<Rightarrow> ActionBucket \<Rightarrow> ContentBrief option"

text \<open>
  \<^verbatim>\<open>hashBrief\<close> joins four values with a bar; the hash is kept as the four values.
\<close>

type_synonym BriefHash = "string \<times> real \<times> nat \<times> nat"

record ModelContribution =
  contribModelId :: ModelId
  contribWeight :: real
  briefHash :: BriefHash
  contribBrief :: "ContentBrief option"

datatype ConsensusStrategy = CS_consensus | CS_primary | CS_single

text \<open>
  The outcome. Its \<^verbatim>\<open>modelOutputs\<close> map repeats the briefs of the contributions by
  model id and is left out.
\<close>

record ConsensusResult =
  brief :: ContentBrief
  confidence :: jsnumber
  contributions :: "ModelContribution list"
  primaryModel :: ModelId
  consensusStrategy :: ConsensusStrategy

definition hashBrief :: "ContentBrief \<Rightarrow> BriefHash" where
  "hashBrief b = (targetKeyword b, targetWordCount b, length (h2Additions b), length (priorityTasks b))"

text \<open>
  \<^verbatim>\<open>[...new Set(xs)]\<close>: the elements in the order of their first occurrence.
\<close>

definition jsSet :: "'a list \<Rightarrow> 'a list" where
  "jsSet xs = foldl (\<lambda>acc x. if x \<in> set acc then acc else acc @ [x]) [] xs"

text \<open>Jaccard similarity of two lists read as sets; two empty sets agree fully.\<close>

definition jaccard :: "string list \<Rightarrow> string list \<Rightarrow> real" where
  "jaccard a b =
     (let aSet = jsSet a; bSet = jsSet b;
          intersection = jsSet (filter (\<lambda>x. x \<in> set bSet) aSet);
          unionSet = jsSet (aSet @ bSet)
      in if length unionSet > 0 then real (length intersection) / real (length unionSet) else 1)"

text \<open>
  The agreement of one pair of briefs, the mean of four dimensions. The word-count ratio
  divides by the larger count; when that is 0 the ratio, and with it the agreement, is
  \<^verbatim>\<open>NaN\<close> or \<^verbatim>\<open>-Infinity\<close>: \<open>None\<close>.
\<close>

definition pairAgreement :: "(string \<Rightarrow> string) \<Rightarrow> ContentBrief \<Rightarrow> ContentBrief \<Rightarrow> jsnumber" where
  "pairAgreement lower a b =
     (if max (targetWordCount a) (targetWordCount b) = 0 then None
      else
        (let wcRatio = min (targetWordCount a) (targetWordCount b) /
                       max (targetWordCount a) (targetWordCount b);
             d1 = (if wcRatio > 0.8 then 1 else wcRatio);
             d2 = jaccard (map lower (h2Additions a)) (map lower (h2Additions b));
             d3 = jaccard (schemaStack a) (schemaStack b);
             d4 = jaccard (map (\<lambda>t. take 30 (lower t)) (priorityTasks a))
                          (map (\<lambda>t. take 30 (lower t)) (priorityTasks b))
         in Some ((0 + d1 + d2 + d3 + d4) / 4)))"

text \<open>The pairs \<open>(i, j)\<close> with \<open>i < j\<close>, in the order of the two nested loops.\<close>

fun pairsOf :: "'a list \<Rightarrow> ('a \<times> 'a) list" where
  "pairsOf [] = []"
| "pairsOf (x # xs) = map (Pair x) xs @ pairsOf xs"

definition addNumbers :: "jsnumber \<Rightarrow> jsnumber \<Rightarrow> jsnumber" where
  "addNumbers x y = (case (x, y) of (Some a, Some b) \<Rightarrow> Some (a + b) | _ \<Rightarrow> None)"

text \<open>
  \<^verbatim>\<open>calculateConfidence\<close>, on the briefs of the contributions (its only caller passes
  contributions that all carry one).
\<close>

definition calculateConfidence :: "(string \<Rightarrow> string) \<Rightarrow> ContentBrief list \<Rightarrow> jsnumber" where
  "calculateConfidence lower briefs =
     (if length briefs \<le> 1 then Some 1
      else
        (let ps = pairsOf briefs;
             agreementScore = foldl addNumbers (Some 0) (map (\<lambda>(a, b). pairAgreement lower a b) ps);
             comparisons = length ps
         in if comparisons > 0 then map_option (\<lambda>s. s / real comparisons) agreementScore
            else Some 1))"

text \<open>
  The heading counter: a \<^verbatim>\<open>Map\<close> from lower-cased heading to count, in insertion
  order. \<open>bumpCount\<close> is \<^verbatim>\<open>h2Counts.set(key, (h2Counts.get(key) || 0) + 1)\<close>.
\<close>

fun bumpCount :: "string \<Rightarrow> (string \<times> nat) list \<Rightarrow> (string \<times> nat) list" where
  "bumpCount key [] = [(key, 0 + 1)]"
| "bumpCount key ((k, n) # rest) =
     (if k = key then (k, (if n = 0 then 0 else n) + 1) # rest else (k, n) # bumpCount key rest)"

text \<open>
  The original casing of a counted heading: the first contribution with a heading that
  lower-cases to the key gives its first such heading, unless that heading is the empty
  string (which is falsy); with none found, the key itself.
\<close>

fun originalCasing :: "(string \<Rightarrow> string) \<Rightarrow> ContentBrief list \<Rightarrow> string \<Rightarrow> string" where
  "originalCasing lower [] h2 = h2"
| "originalCasing lower (b # bs) h2 =
     (case find (\<lambda>h. lower h = h2) (h2Additions b) of
        Some found \<Rightarrow> if found \<noteq> [] then found else originalCasing lower bs h2
      | None \<Rightarrow> originalCasing lower bs h2)"

text \<open>The merged headings of briefs already in weight order.\<close>

definition mergedH2s :: "(string \<Rightarrow> string) \<Rightarrow> ContentBrief list \<Rightarrow> string list" where
  "mergedH2s lower sortedBriefs =
     (let h2Counts = foldl (\<lambda>counts h2. bumpCount (lower h2) counts) []
                       (concat (map h2Additions sortedBriefs))
      in map (\<lambda>e. originalCasing lower sortedBriefs (fst e))
             (sort_key (\<lambda>e. - int (snd e)) h2Counts))"

text \<open>
  \<^verbatim>\<open>mergeBriefs\<close>, in three parts. First the contributions without a brief are
  filtered out and the others sorted by descending live weight of their model (a stable
  sort); of a contribution the function reads the model id and the brief, and the pair of
  the two is kept.
\<close>

definition sortByWeight ::
  "ModelContribution list \<Rightarrow> BucketWeights \<Rightarrow> (ModelId \<times> ContentBrief) list" where
  "sortByWeight contribs bucketWeights =
     sort_key (\<lambda>c. - weightOrZero bucketWeights (fst c))
       (List.map_filter (\<lambda>c. map_option (Pair (contribModelId c)) (contribBrief c)) contribs)"

text \<open>Then the merged brief is built from the sorted contributions and the primary brief.\<close>

definition buildMerged ::
  "(string \<Rightarrow> string) \<Rightarrow> (ModelId \<times> ContentBrief) list \<Rightarrow> ContentBrief \<Rightarrow> BucketWeights
     \<Rightarrow> PageData \<Rightarrow> ActionBucket \<Rightarrow> ContentBrief" where
  "buildMerged lower sortedCs primaryBrief bucketWeights page bkt =
     (let sortedBriefs = map snd sortedCs;
          uniqueTitles = take 3 (jsSet (concat (map titleRecommendations sortedBriefs)));
          uniqueTasks = jsSet (concat (map priorityTasks sortedBriefs));
          uniqueSchema = jsSet (concat (map schemaStack sortedBriefs));
          totalW = foldl (\<lambda>t c. t + weightOrZero bucketWeights (fst c)) 0 sortedCs;
          weightedWordCount =
            foldl (\<lambda>t c. t + targetWordCount (snd c) * weightOrZero bucketWeights (fst c)) 0 sortedCs;
          avgWordCount = (if totalW > 0 then real_of_int (js_round (weightedWordCount / totalW))
                          else targetWordCount primaryBrief)
      in \<lparr> b_id = None, b_url = url page, targetKeyword = primaryKeyword page,
            briefBucket = bkt, titleRecommendations = uniqueTitles,
            h1Recommendation = h1Recommendation primaryBrief,
            metaDescription = metaDescription primaryBrief,
            targetWordCount = avgWordCount,
            h2Additions = mergedH2s lower sortedBriefs,
            internalLinks = internalLinks primaryBrief,
            priorityTasks = uniqueTasks, schemaStack = uniqueSchema,
            keywordDensityTarget = keywordDensityTarget primaryBrief,
            mandatoryPlacements = mandatoryPlacements primaryBrief,
            metricsSnapshot = metricsSnapshot primaryBrief, status = S_draft,
            contentWriterJobId = None, generatedContent = None,
            generatedWordCount = None, generatedBy = None,
            contributingModels = None, consensusConfidence = None \<rparr>)"

text \<open>
  The primary brief is that of the first sorted contribution; with no contribution left,
  \<^verbatim>\<open>sorted[0].brief\<close> raises a TypeError.
\<close>

definition mergeBriefs ::
  "(string \<Rightarrow> string) \<Rightarrow> ModelContribution list \<Rightarrow> BucketWeights \<Rightarrow> PageData \<Rightarrow> ActionBucket
     \<Rightarrow> error + ContentBrief" where
  "mergeBriefs lower contribs bucketWeights page bkt =
     (let sorted = sortByWeight contribs bucketWeights
      in case sorted of
           [] \<Rightarrow> Inl TypeError
         | firstC # _ \<Rightarrow> Inr (buildMerged lower sorted (snd firstC) bucketWeights page bkt))"

text \<open>The federation metadata written onto the brief that is returned.\<close>

definition tagBrief :: "ContentBrief \<Rightarrow> ModelId \<Rightarrow> ModelId list \<Rightarrow> jsnumber \<Rightarrow> ContentBrief" where
  "tagBrief b pm ids conf =
     b\<lparr> generatedBy := Some pm, contributingModels := Some ids, consensusConfidence := Some conf \<rparr>"

text \<open>\<^verbatim>\<open>confidence >= this.consensusThreshold\<close>: false for a value that is not finite.\<close>

definition reachesThreshold :: "jsnumber \<Rightarrow> real \<Rightarrow> bool" where
  "reachesThreshold conf threshold = (case conf of None \<Rightarrow> False | Some c \<Rightarrow> c \<ge> threshold)"

text \<open>The contribution a fulfilled call adds.\<close>

definition contributionOf :: "BucketWeights \<Rightarrow> real \<Rightarrow> ModelId \<Rightarrow> ContentBrief \<Rightarrow> ModelContribution" where
  "contributionOf bucketWeights dflt mid b =
     \<lparr> contribModelId = mid,
       contribWeight = (case bucketWeights mid of None \<Rightarrow> dflt | Some v \<Rightarrow> v),
       briefHash = hashBrief b, contribBrief = Some b \<rparr>"

text \<open>
  \<^verbatim>\<open>generateConsensus\<close> of an engine with the given threshold, in three parts.
  Several adapters are all settled and the fulfilled ones collected in adapter order.
\<close>

definition collectFulfilled ::
  "BucketWeights \<Rightarrow> PageData \<Rightarrow> ActionBucket \<Rightarrow> ModelAdapter list \<Rightarrow> ModelContribution list" where
  "collectFulfilled bucketWeights page bkt adapters =
     List.map_filter (\<lambda>a. map_option (contributionOf bucketWeights 0 (adapterId a))
                                   (generateBrief a page bkt)) adapters"

text \<open>
  With two or more contributions: the confidence, the primary model and the brief. The
  sort of the contributions is in place, so the outcome lists them by descending weight;
  with strategy primary the brief returned is the first contribution's own brief object,
  and the metadata written onto it shows in that contribution too.
\<close>

definition aggregate ::
  "(string \<Rightarrow> string) \<Rightarrow> real \<Rightarrow> ModelContribution list \<Rightarrow> BucketWeights \<Rightarrow> PageData \<Rightarrow> ActionBucket
     \<Rightarrow> error + ConsensusResult" where
  "aggregate lower consensusThreshold contribs bucketWeights page bkt =
     (let conf = calculateConfidence lower (List.map_filter contribBrief contribs);
          sorted = sort_key (\<lambda>c. - contribWeight c) contribs;
          pm = contribModelId (hd sorted);
          ids = map contribModelId sorted
      in if reachesThreshold conf consensusThreshold
         then (case mergeBriefs lower sorted bucketWeights page bkt of
                 Inl e \<Rightarrow> Inl e
               | Inr merged \<Rightarrow>
                   Inr \<lparr> brief = tagBrief merged pm ids conf, confidence = conf,
                         contributions = sorted, primaryModel = pm,
                         consensusStrategy = CS_consensus \<rparr>)
         else (case contribBrief (hd sorted) of
                 None \<Rightarrow> Inl TypeError
               | Some b \<Rightarrow>
                   Inr \<lparr> brief = tagBrief b pm ids conf, confidence = conf,
                         contributions =
                           (hd sorted)\<lparr>contribBrief := Some (tagBrief b pm ids conf)\<rparr> # tl sorted,
                         primaryModel = pm,
                         consensusStrategy = CS_primary \<rparr>))"

text \<open>
  The whole call. A single adapter is awaited directly, so its rejection is the call's.
\<close>

definition generateConsensus ::
  "(string \<Rightarrow> string) \<Rightarrow> real \<Rightarrow> ModelAdapter list \<Rightarrow> PageData \<Rightarrow> ActionBucket \<Rightarrow> ModelWeights
     \<Rightarrow> error + ConsensusResult" where
  "generateConsensus lower consensusThreshold adapters page bkt modelWeights =
     (let bucketWeights = modelWeights bkt
      in if length adapters = 1
         then (case generateBrief (hd adapters) page bkt of
                 None \<Rightarrow> Inl AdapterRejected
               | Some b \<Rightarrow>
                   Inr \<lparr> brief = b, confidence = Some 1,
                         contributions = [contributionOf bucketWeights 1 (adapterId (hd adapters)) b],
                         primaryModel = adapterId (hd adapters),
                         consensusStrategy = CS_single \<rparr>)
         else
           (let contribs = collectFulfilled bucketWeights page bkt adapters
            in if length contribs = 0 then Inl AllAdaptersFailed
               else if length contribs = 1
               then (case contribBrief (hd contribs) of
                       None \<Rightarrow> Inl TypeError
                     | Some b \<Rightarrow>
                         Inr \<lparr> brief = b, confidence = Some 1, contributions = contribs,
                               primaryModel = contribModelId (hd contribs),
                               consensusStrategy = CS_single \<rparr>)
               else aggregate lower consensusThreshold contribs bucketWeights page bkt))"

section \<open>Auxiliary definitions and sample inputs\<close>

definition mkWeights :: "real \<Rightarrow> real \<Rightarrow> real \<Rightarrow> real \<Rightarrow> real \<Rightarrow> WeightConfig" where
  "mkWeights a b c d e =
     \<lparr> w_impressions = a, w_position = b, w_ctrGap = c, w_conversions = d, w_freshness = e \<rparr>"

text \<open>
  An action on a page at position 6 with CTR 1 percent; only the observed CTR and the
  flag vary.
\<close>

definition sampleAction :: "ActionBucket \<Rightarrow> real option \<Rightarrow> bool \<Rightarrow> SEOAction" where
  "sampleAction b rctr flagged = \<lparr> a_url = ''https://example.com/blog/post'', actionType = b,
     originalClicks = 10, originalImpressions = 1000, originalCtr = 0.01, originalPosition = 6,
     resultClicks = None, resultImpressions = None, resultCtr = rctr, resultPosition = None,
     learningApplied = flagged \<rparr>"

definition defaultAdjuster :: WeightAdjuster where
  "defaultAdjuster = createWeightAdjuster DEFAULT_WEIGHTS DEFAULT_LEARNING_CONFIG 0"

text \<open>A CTR fix whose CTR doubled, not yet flagged, and the same action flagged.\<close>

definition ctrFixSuccess :: SEOAction where
  "ctrFixSuccess = sampleAction CTR_FIX (Some 0.02) False"

definition ctrFixApplied :: SEOAction where
  "ctrFixApplied = sampleAction CTR_FIX (Some 0.02) True"

text \<open>A striking-distance action whose position did not move.\<close>

definition strikingUnchanged :: SEOAction where
  "strikingUnchanged = sampleAction STRIKING_DISTANCE None False"

definition zeroFloorConfig :: LearningConfig where
  "zeroFloorConfig = \<lparr> learningRate = 0.015, minWeight = 0, maxWeight = 0.50 \<rparr>"

text \<open>An adjuster whose weights sum to 1 and round, all five upwards, to a sum of 1.0002.\<close>

definition tiltedAdjuster :: WeightAdjuster where
  "tiltedAdjuster =
     createWeightAdjuster (mkWeights 0.40006 0.15006 0.15006 0.15006 0.14976) DEFAULT_LEARNING_CONFIG 0"

subsection \<open>Model weight rows\<close>

text \<open>A cell of a row, a missing one counting 0 (as it does in the row's total).\<close>

definition cell :: "BucketWeights \<Rightarrow> ModelId \<Rightarrow> real" where
  "cell row m = (case row m of None \<Rightarrow> 0 | Some v \<Rightarrow> v)"

text \<open>The row of \<^verbatim>\<open>adjustWeight\<close> after the clamped cell is stored, before the renormalisation.\<close>

definition adjustedRow :: "ModelWeights \<Rightarrow> ActionBucket \<Rightarrow> ModelId \<Rightarrow> real \<Rightarrow> real \<Rightarrow> real \<Rightarrow> BucketWeights" where
  "adjustedRow w bucket modelId delta minW maxW =
     (w bucket)(modelId \<mapsto> clamp ((case w bucket modelId of None \<Rightarrow> 0.25 | Some v \<Rightarrow> v) + delta) minW maxW)"

text \<open>A row whose four cells all sit on a rounding tie, a row of zeros, and a row of two cells.\<close>

definition tieRow :: BucketWeights where
  "tieRow = [claude \<mapsto> 0.25005, openai \<mapsto> 0.25005, gemini \<mapsto> 0.25005, grok \<mapsto> 0.24985]"

definition zeroRow :: BucketWeights where
  "zeroRow = [claude \<mapsto> 0, openai \<mapsto> 0, gemini \<mapsto> 0, grok \<mapsto> 0]"

text \<open>A row of two cells that sums to zero once the first cell is lowered by 0.25.\<close>

definition offsetRow :: BucketWeights where
  "offsetRow = [claude \<mapsto> 0.5, openai \<mapsto> - 0.25]"

definition twoRow :: BucketWeights where
  "twoRow = [openai \<mapsto> 0.5, gemini \<mapsto> 0.5]"

definition sparseWeights :: ModelWeights where
  "sparseWeights = (\<lambda>bucket. twoRow)"

definition sampleRegistry :: ModelRegistry where
  "sampleRegistry = [(claude, True), (openai, True), (gemini, False), (grok, True)]"

subsection \<open>Sample pages\<close>

definition samplePage :: "string \<Rightarrow> string \<Rightarrow> real \<Rightarrow> real \<Rightarrow> real \<Rightarrow> real \<Rightarrow> real \<Rightarrow> PageData" where
  "samplePage u kw imp c pos conv fresh = \<lparr> url = u, primaryKeyword = kw, clicks = 0, impressions = imp,
     ctr = c, position = pos, conversions = conv, sessions = 0, bounceRate = 0, avgSessionDuration = 0,
     intent = I_informational, isLocalPage = False, localKeywords = [], freshnessScore = fresh \<rparr>"

text \<open>Every normalised component is 1.\<close>

definition saturatedPage :: PageData where
  "saturatedPage = samplePage ''https://example.com/a'' ''widgets'' 99999 0 0 99 1"

text \<open>An impression count below -1.\<close>

definition negativePage :: PageData where
  "negativePage = samplePage ''https://example.com/a'' ''widgets'' (- 2) 0.05 4 3 0.5"

definition typicalPage :: PageData where
  "typicalPage = samplePage ''https://example.com/a'' ''widgets'' 999 0.02 4 9 0.5"

text \<open>A page at position 2 with many impressions, no clicks and a local keyword.\<close>

definition topLocalPage :: PageData where
  "topLocalPage = samplePage ''https://example.com/plumber'' ''Plumber Near Me'' 10000 0 2 0 0.5"

subsection \<open>The merged headings in the words of the specification\<close>

text \<open>
  The headings of all contributors, taken in provider order, are lower-cased; the
  deduplicated union keeps each in the place of its first occurrence; the union is ranked
  by descending number of occurrences with a stable sort, so that equally frequent
  headings stay in first-seen order; each is then written as its first occurrence was.
\<close>

definition specMergedHeadings :: "(string \<Rightarrow> string) \<Rightarrow> string list \<Rightarrow> string list" where
  "specMergedHeadings lower allHeadings =
     (let keys = map lower allHeadings;
          firstSeen = rev (remdups (rev keys));
          ranked = sort_key (\<lambda>k. - int (count_list keys k)) firstSeen
      in map (\<lambda>k. case find (\<lambda>h. lower h = k) allHeadings of Some h \<Rightarrow> h | None \<Rightarrow> k) ranked)"

subsection \<open>Sample briefs and adapters\<close>

definition sampleBrief :: "ModelId \<Rightarrow> string list \<Rightarrow> real \<Rightarrow> ContentBrief" where
  "sampleBrief m h2s wc = \<lparr> b_id = None, b_url = ''https://example.com/a'', targetKeyword = ''widgets'',
     briefBucket = CTR_FIX, titleRecommendations = [''Widgets [Guide]''], h1Recommendation = ''Widgets'',
     metaDescription = ''All about widgets'', targetWordCount = wc, h2Additions = h2s,
     internalLinks = [], priorityTasks = [''Rewrite the title''], schemaStack = [''FAQPage''],
     keywordDensityTarget = ''0.6% - 1.2%'', mandatoryPlacements = [''First 100 words''],
     metricsSnapshot = None, status = S_draft, contentWriterJobId = None, generatedContent = None,
     generatedWordCount = None, generatedBy = Some m, contributingModels = None,
     consensusConfidence = None \<rparr>"

definition okAdapter :: "ModelId \<Rightarrow> string list \<Rightarrow> real \<Rightarrow> ModelAdapter" where
  "okAdapter m h2s wc = \<lparr> adapterId = m, generateBrief = (\<lambda>p b. Some (sampleBrief m h2s wc)) \<rparr>"

definition failAdapter :: "ModelId \<Rightarrow> ModelAdapter" where
  "failAdapter m = \<lparr> adapterId = m, generateBrief = (\<lambda>p b. None) \<rparr>"

text \<open>
  The scenario of the specification: four providers, three succeed with the heading sets
  {A, B}, {A, C} and {A, B, C}.
\<close>

definition scenarioAdapters :: "ModelAdapter list" where
  "scenarioAdapters = [okAdapter claude [''A'', ''B''] 1000, okAdapter openai [''A'', ''C''] 1000,
     okAdapter gemini [''A'', ''B'', ''C''] 1000, failAdapter grok]"

text \<open>Two providers whose headings agree up to case.\<close>

definition casedAdapters :: "ModelAdapter list" where
  "casedAdapters = [okAdapter claude [''Pricing'', ''FAQ''] 1000,
     okAdapter openai [''PRICING'', ''Setup'', ''faq''] 1000]"

definition openaiFirst :: ModelWeights where
  "openaiFirst = (\<lambda>bucket. [claude \<mapsto> 0.2, openai \<mapsto> 0.4, gemini \<mapsto> 0.2, grok \<mapsto> 0.2])"

definition oneOfThree :: "ModelAdapter list" where
  "oneOfThree = [failAdapter claude, okAdapter openai [''A'', ''C''] 1000, failAdapter grok]"

definition noneOfTwo :: "ModelAdapter list" where
  "noneOfTwo = [failAdapter claude, failAdapter grok]"

definition onlyClaude :: "ModelAdapter list" where
  "onlyClaude = [okAdapter claude [''A'', ''B''] 1000]"

text \<open>
  Two contribution lists with the same models and briefs but different recorded weights
  and hashes, two rows that differ on a model that did not contribute, and two pages with
  the same URL and keyword.
\<close>

definition recordedA :: "ModelContribution list" where
  "recordedA = [contributionOf uniformRow 0 claude (sampleBrief claude [''A'', ''B''] 1200),
                contributionOf uniformRow 0 openai (sampleBrief openai [''A'', ''C''] 800)]"

definition recordedB :: "ModelContribution list" where
  "recordedB = map (\<lambda>c. c\<lparr> contribWeight := 0.9, briefHash := ([], 0, 0, 0) \<rparr>) recordedA"

definition grokHeavy :: BucketWeights where
  "grokHeavy = uniformRow(grok \<mapsto> 0.6)"

definition otherPage :: PageData where
  "otherPage = typicalPage\<lparr> impressions := 5, position := 30 \<rparr>"


section \<open>Rounding\<close>

lemmas cycle_eval = runLearningCycle_def learnFromAction_def processAction_def applyAdjustment_def
  evaluateActionSuccess_def metricDelta_def successScoreOf_def normalizeWeights_def totalWeight_def
  round4_def js_round_def clamp_def getW_def setW_def lastSegment_def createWeightAdjuster_def
  mkWeights_def sampleAction_def DEFAULT_WEIGHTS_def DEFAULT_LEARNING_CONFIG_def weightsWithin_def
  cycleWeights_def roundedTo4_def Let_def defaultAdjuster_def ctrFixSuccess_def ctrFixApplied_def
  strikingUnchanged_def zeroFloorConfig_def

lemma js_round_upper: "real_of_int (js_round x) \<le> x + 1 / 2"
  unfolding js_round_def by linarith

lemma js_round_lower: "x - 1 / 2 < real_of_int (js_round x)"
  unfolding js_round_def by linarith

lemma js_round_mono: "x \<le> y \<Longrightarrow> js_round x \<le> js_round y"
  unfolding js_round_def by (simp add: floor_mono)

lemma round4_mono: "x \<le> y \<Longrightarrow> round4 x \<le> round4 y"
  unfolding round4_def using js_round_mono [of "x * 10000" "y * 10000"]
  by (simp add: divide_right_mono)

lemma round4_0: "round4 0 = 0"
  unfolding round4_def js_round_def by simp

lemma round4_1: "round4 1 = 1"
  unfolding round4_def js_round_def by simp

lemma round4_unit: "0 \<le> x \<Longrightarrow> x \<le> 1 \<Longrightarrow> 0 \<le> round4 x \<and> round4 x \<le> 1"
  using round4_mono [of 0 x] round4_mono [of x 1] by (simp add: round4_0 round4_1)

text \<open>
  Five numbers that sum to 10000 are rounded one by one: each rounding moves its number by
  at most a half, and the sum of the rounded numbers is an integer, so it is off by at
  most 2.
\<close>

lemma round5_sum:
  fixes a b c d e :: real
  assumes "a + b + c + d + e = 10000"
  shows "\<bar>js_round a + js_round b + js_round c + js_round d + js_round e - 10000\<bar> \<le> 2"
proof -
  let ?n = "js_round a + js_round b + js_round c + js_round d + js_round e"
  have up: "real_of_int ?n \<le> 10000 + 5 / 2"
    using js_round_upper [of a] js_round_upper [of b] js_round_upper [of c]
      js_round_upper [of d] js_round_upper [of e] assms by simp
  have lo: "10000 - 5 / 2 < real_of_int ?n"
    using js_round_lower [of a] js_round_lower [of b] js_round_lower [of c]
      js_round_lower [of d] js_round_lower [of e] assms by simp
  from up have "?n \<le> 10002" by linarith
  moreover from lo have "9998 \<le> ?n" by linarith
  ultimately show ?thesis by linarith
qed

section \<open>The content weight vector across a learning cycle\<close>

lemma normalizeWeights_total:
  assumes "totalWeight w \<noteq> 0"
  shows "\<bar>totalWeight (normalizeWeights w) - 1\<bar> \<le> 2 / 10000"
proof -
  let ?t = "totalWeight w"
  let ?a = "w_impressions w / ?t * 10000"
  let ?b = "w_position w / ?t * 10000"
  let ?c = "w_ctrGap w / ?t * 10000"
  let ?d = "w_conversions w / ?t * 10000"
  let ?e = "w_freshness w / ?t * 10000"
  have "?a + ?b + ?c + ?d + ?e =
      (w_impressions w + w_position w + w_ctrGap w + w_conversions w + w_freshness w) / ?t * 10000"
    by (simp only: add_divide_distrib distrib_right)
  also have "\<dots> = ?t / ?t * 10000" by (simp add: totalWeight_def)
  finally have s: "?a + ?b + ?c + ?d + ?e = 10000" using assms by simp
  let ?n = "js_round ?a + js_round ?b + js_round ?c + js_round ?d + js_round ?e"
  have tot: "totalWeight (normalizeWeights w) = real_of_int ?n / 10000"
    using assms by (simp add: normalizeWeights_def Let_def totalWeight_def round4_def add_divide_distrib)
  have "\<bar>?n - 10000\<bar> \<le> 2" using round5_sum [OF s] .
  then have "\<bar>real_of_int ?n - 10000\<bar> \<le> 2" by linarith
  then show ?thesis unfolding tot by (simp add: field_simps abs_if split: if_splits)
qed

lemma clamp_within: "lo \<le> hi \<Longrightarrow> lo \<le> clamp v lo hi \<and> clamp v lo hi \<le> hi"
  unfolding clamp_def by auto

lemma weightsWithin_setW:
  "weightsWithin lo hi w \<Longrightarrow> lo \<le> v \<Longrightarrow> v \<le> hi \<Longrightarrow> weightsWithin lo hi (setW w k v)"
  unfolding weightsWithin_def setW_def by (cases k) simp_all

lemma weightsWithin_order: "weightsWithin lo hi w \<Longrightarrow> lo \<le> hi"
  unfolding weightsWithin_def by linarith

lemma applyAdjustment_config: "config (snd (applyAdjustment s k d r)) = config s"
  unfolding applyAdjustment_def by (simp add: Let_def)

lemma applyAdjustment_within:
  assumes "weightsWithin (minWeight (config s)) (maxWeight (config s)) (weights s)"
  shows "weightsWithin (minWeight (config s)) (maxWeight (config s)) (weights (snd (applyAdjustment s k d r)))"
  using assms clamp_within [OF weightsWithin_order [OF assms]]
  unfolding applyAdjustment_def by (simp add: Let_def weightsWithin_setW)

lemma processAction_applies:
  "\<exists>d r. fst (processAction (s, adjs) a) = snd (applyAdjustment s (getWeightKeyForBucket (actionType a)) d r)"
  unfolding processAction_def
  by (auto simp: Let_def split: prod.splits option.splits) (metis snd_conv)+

lemma processAction_inv:
  assumes "weightsWithin (minWeight (config (fst st))) (maxWeight (config (fst st))) (weights (fst st))"
  shows "config (fst (processAction st a)) = config (fst st) \<and>
         weightsWithin (minWeight (config (fst st))) (maxWeight (config (fst st))) (weights (fst (processAction st a)))"
proof -
  obtain s adjs where st: "st = (s, adjs)" by (cases st)
  obtain d r where "fst (processAction st a) = snd (applyAdjustment s (getWeightKeyForBucket (actionType a)) d r)"
    using processAction_applies [of s adjs a] st by blast
  then show ?thesis
    using applyAdjustment_within [of s _ d r] applyAdjustment_config [of s _ d r] assms st by simp
qed

lemma learnFromAction_inv:
  assumes "weightsWithin (minWeight (config (fst st))) (maxWeight (config (fst st))) (weights (fst st))"
  shows "config (fst (learnFromAction st a)) = config (fst st) \<and>
         weightsWithin (minWeight (config (fst st))) (maxWeight (config (fst st))) (weights (fst (learnFromAction st a)))"
  using assms processAction_inv [OF assms, of a]
  unfolding learnFromAction_def by simp

lemma foldl_learn_inv:
  "weightsWithin (minWeight (config (fst st))) (maxWeight (config (fst st))) (weights (fst st)) \<Longrightarrow>
   config (fst (foldl learnFromAction st acts)) = config (fst st) \<and>
   weightsWithin (minWeight (config (fst st))) (maxWeight (config (fst st))) (weights (fst (foldl learnFromAction st acts)))"
proof (induction acts arbitrary: st)
  case Nil
  then show ?case by simp
next
  case (Cons a acts)
  from learnFromAction_inv [OF Cons.prems, of a]
  have c: "config (fst (learnFromAction st a)) = config (fst st)"
    and w: "weightsWithin (minWeight (config (fst st))) (maxWeight (config (fst st))) (weights (fst (learnFromAction st a)))"
    by simp_all
  from Cons.IH [of "learnFromAction st a"] c w show ?case by simp
qed

lemma cycleWeights_within:
  "weightsWithin (minWeight (config s)) (maxWeight (config s)) (weights s) \<Longrightarrow>
   weightsWithin (minWeight (config s)) (maxWeight (config s)) (cycleWeights s acts)"
  unfolding cycleWeights_def using foldl_learn_inv [of "(s, [])" acts] by simp

lemma runLearningCycle_newWeights:
  "newWeights (fst (runLearningCycle s acts)) = normalizeWeights (cycleWeights s acts)"
  unfolding runLearningCycle_def cycleWeights_def by (simp add: Let_def split: prod.splits)

lemma weightsWithin_total_pos: "weightsWithin lo hi w \<Longrightarrow> 0 < lo \<Longrightarrow> 0 < totalWeight w"
  unfolding weightsWithin_def totalWeight_def by linarith

lemma normalizeWeights_unit:
  assumes "weightsWithin lo hi w" and "0 < lo"
  shows "weightsWithin 0 1 (normalizeWeights w)"
proof -
  let ?t = "totalWeight w"
  from assms have pos: "0 < w_impressions w" "0 < w_position w" "0 < w_ctrGap w"
    "0 < w_conversions w" "0 < w_freshness w"
    unfolding weightsWithin_def by linarith+
  then have t: "0 < ?t" unfolding totalWeight_def by linarith
  have le: "w_impressions w \<le> ?t" "w_position w \<le> ?t" "w_ctrGap w \<le> ?t"
    "w_conversions w \<le> ?t" "w_freshness w \<le> ?t"
    using pos unfolding totalWeight_def by linarith+
  have r: "\<And>x. 0 < x \<Longrightarrow> x \<le> ?t \<Longrightarrow> 0 \<le> round4 (x / ?t) \<and> round4 (x / ?t) \<le> 1"
    using t by (intro round4_unit) simp_all
  show ?thesis
    using t r [OF pos(1) le(1)] r [OF pos(2) le(2)] r [OF pos(3) le(3)] r [OF pos(4) le(4)] r [OF pos(5) le(5)]
    unfolding weightsWithin_def normalizeWeights_def by (simp add: Let_def)
qed

text \<open>
  Claim C1, as the code has it. From a vector whose components lie in
  [minWeight, maxWeight], the loop of a learning cycle keeps every component in
  [minWeight, maxWeight]; the returned vector is the renormalisation of that vector. When
  its total is not zero, the returned vector sums to 1.0 within 2e-4 (five roundings to
  four decimals); when minWeight is positive the total is not zero and every returned
  component lies in [0, 1]. The renormalisation is not followed by a second clamp.
\<close>

theorem runLearningCycle_weights_bounds:
  assumes "weightsWithin (minWeight (config s)) (maxWeight (config s)) (weights s)"
  shows "weightsWithin (minWeight (config s)) (maxWeight (config s)) (cycleWeights s acts) \<and>
         newWeights (fst (runLearningCycle s acts)) = normalizeWeights (cycleWeights s acts) \<and>
         (totalWeight (cycleWeights s acts) \<noteq> 0 \<longrightarrow>
            \<bar>totalWeight (newWeights (fst (runLearningCycle s acts))) - 1\<bar> \<le> 2 / 10000) \<and>
         (0 < minWeight (config s) \<longrightarrow>
            totalWeight (cycleWeights s acts) \<noteq> 0 \<and>
            weightsWithin 0 1 (newWeights (fst (runLearningCycle s acts))))"
proof -
  note w = cycleWeights_within [OF assms, of acts]
  show ?thesis
    using w normalizeWeights_total [of "cycleWeights s acts"]
      normalizeWeights_unit [OF w] weightsWithin_total_pos [OF w]
    by (auto simp: runLearningCycle_newWeights)
qed

theorem runLearningCycle_weights_bounds_witness:
  "weightsWithin (minWeight (config defaultAdjuster)) (maxWeight (config defaultAdjuster)) (weights defaultAdjuster) \<and>
   0 < minWeight (config defaultAdjuster) \<and>
   totalWeight (cycleWeights defaultAdjuster [ctrFixSuccess]) \<noteq> 0 \<and>
   \<bar>totalWeight (newWeights (fst (runLearningCycle defaultAdjuster [ctrFixSuccess]))) - 1\<bar> \<le> 2 / 10000 \<and>
   weightsWithin 0 1 (newWeights (fst (runLearningCycle defaultAdjuster [ctrFixSuccess])))"
proof -
  have h: "weightsWithin (minWeight (config defaultAdjuster)) (maxWeight (config defaultAdjuster)) (weights defaultAdjuster)"
    by (simp add: cycle_eval)
  have m: "0 < minWeight (config defaultAdjuster)"
    by (simp add: cycle_eval)
  from runLearningCycle_weights_bounds [OF h, of "[ctrFixSuccess]"] m h show ?thesis by blast
qed

text \<open>
  Claim C1 as stated fails in each of its parts. From (0.5, 0.35, 0.05, 0.05, 0.05) under
  the default configuration, one failed striking-distance action lowers the position
  weight to 0.3425 and the renormalisation lifts the impressions weight to 0.5038, above
  maxWeight. From (0.20006, 0.20006, 0.20006, 0.20006, 0.19976) and no action, all five
  components round up and the result sums to 1.0002. With minWeight 0 the zero vector
  stays the zero vector.
\<close>

theorem runLearningCycle_invariant_counterexample:
  "(weightsWithin 0.05 0.5 (mkWeights 0.5 0.35 0.05 0.05 0.05) \<and>
    \<not> weightsWithin 0.05 0.5 (newWeights (fst (runLearningCycle
        (createWeightAdjuster (mkWeights 0.5 0.35 0.05 0.05 0.05) DEFAULT_LEARNING_CONFIG 0)
        [strikingUnchanged])))) \<and>
   (weightsWithin 0.05 0.5 (mkWeights 0.20006 0.20006 0.20006 0.20006 0.19976) \<and>
    \<not> \<bar>totalWeight (newWeights (fst (runLearningCycle
        (createWeightAdjuster (mkWeights 0.20006 0.20006 0.20006 0.20006 0.19976) DEFAULT_LEARNING_CONFIG 0)
        []))) - 1\<bar> \<le> 1 / 10000) \<and>
   (weightsWithin 0 0.5 (mkWeights 0 0 0 0 0) \<and>
    \<not> \<bar>totalWeight (newWeights (fst (runLearningCycle
        (createWeightAdjuster (mkWeights 0 0 0 0 0) zeroFloorConfig 0) []))) - 1\<bar> \<le> 1 / 10000)"
  by (simp add: cycle_eval)

section \<open>Actions already applied\<close>

lemma foldl_learn_applied:
  "\<forall>a\<in>set acts. learningApplied a \<Longrightarrow> foldl learnFromAction st acts = st"
  by (induction acts arbitrary: st) (simp_all add: learnFromAction_def)

lemma normalizeWeights_fixed:
  "totalWeight w = 1 \<Longrightarrow> roundedTo4 w \<Longrightarrow> normalizeWeights w = w"
  unfolding normalizeWeights_def roundedTo4_def by (simp add: Let_def)

text \<open>
  Claim C8, as the code has it. When every action is flagged learningApplied, the cycle
  reports no adjustment and returns the renormalisation of the vector it held: the
  renormalisation runs whether or not an action was processed. The returned vector is the
  held vector when that vector sums to exactly 1 and is already rounded to four decimals.
\<close>

theorem runLearningCycle_all_applied:
  assumes "\<forall>a\<in>set acts. learningApplied a"
  shows "adjustments (fst (runLearningCycle s acts)) = [] \<and>
         newWeights (fst (runLearningCycle s acts)) = normalizeWeights (weights s) \<and>
         (totalWeight (weights s) = 1 \<and> roundedTo4 (weights s) \<longrightarrow>
            newWeights (fst (runLearningCycle s acts)) = weights s)"
  using foldl_learn_applied [OF assms, of "(s, [])"] normalizeWeights_fixed [of "weights s"]
  unfolding runLearningCycle_def by (simp add: Let_def)

theorem runLearningCycle_all_applied_witness:
  "learningApplied ctrFixApplied \<and>
   totalWeight (weights defaultAdjuster) = 1 \<and> roundedTo4 (weights defaultAdjuster) \<and>
   adjustments (fst (runLearningCycle defaultAdjuster [ctrFixApplied])) = [] \<and>
   newWeights (fst (runLearningCycle defaultAdjuster [ctrFixApplied])) = weights defaultAdjuster"
proof -
  have a: "learningApplied ctrFixApplied"
    by (simp add: ctrFixApplied_def sampleAction_def)
  then have h: "\<forall>a\<in>set [ctrFixApplied]. learningApplied a" by simp
  have t: "totalWeight (weights defaultAdjuster) = 1" by (simp add: cycle_eval)
  have r: "roundedTo4 (weights defaultAdjuster)" by (simp add: cycle_eval)
  from runLearningCycle_all_applied [OF h, of defaultAdjuster] t r a show ?thesis by blast
qed

text \<open>
  Claim C8 as stated fails, also on the second of two passes. A first pass over a flagged
  action from (0.40006, 0.15006, 0.15006, 0.15006, 0.14976) leaves the adjuster holding
  (0.4001, 0.1501, 0.1501, 0.1501, 0.1498), which sums to 1.0002; the second pass over the
  same flagged action returns 0.4 for the impressions weight, not the 0.4001 held before
  the call.
\<close>

theorem runLearningCycle_second_pass_counterexample:
  "learningApplied ctrFixApplied \<and>
   weights (snd (runLearningCycle tiltedAdjuster [ctrFixApplied])) =
     mkWeights 0.4001 0.1501 0.1501 0.1501 0.1498 \<and>
   adjustments (fst (runLearningCycle (snd (runLearningCycle tiltedAdjuster [ctrFixApplied]))
     [ctrFixApplied])) = [] \<and>
   newWeights (fst (runLearningCycle (snd (runLearningCycle tiltedAdjuster [ctrFixApplied]))
     [ctrFixApplied])) = mkWeights 0.4 0.1501 0.1501 0.1501 0.1498 \<and>
   newWeights (fst (runLearningCycle (snd (runLearningCycle tiltedAdjuster [ctrFixApplied]))
     [ctrFixApplied])) \<noteq> weights (snd (runLearningCycle tiltedAdjuster [ctrFixApplied]))"
  by (simp add: cycle_eval tiltedAdjuster_def)

section \<open>Actions never flagged by the cycle\<close>

lemma foldl_learn_unflagged:
  "\<forall>a\<in>set acts. \<not> learningApplied a \<Longrightarrow> foldl learnFromAction st acts = foldl processAction st acts"
  by (induction acts arbitrary: st) (simp_all add: learnFromAction_def)

text \<open>
  Claim C10. The cycle takes the actions as an input and returns only the result and the
  adjuster: no action is flagged by it. So a second cycle over the same unflagged actions,
  started from the adjuster the first cycle left, skips none of them: its weights are the
  renormalisation of the adjuster's weights after the loop body has processed every
  action again, and its adjustments are the ones that second processing records.
\<close>

theorem runLearningCycle_reapplies_unflagged:
  assumes "\<forall>a\<in>set acts. \<not> learningApplied a"
  shows "newWeights (fst (runLearningCycle (snd (runLearningCycle s acts)) acts)) =
           normalizeWeights (weights (fst (foldl processAction (snd (runLearningCycle s acts), []) acts))) \<and>
         adjustments (fst (runLearningCycle (snd (runLearningCycle s acts)) acts)) =
           snd (foldl processAction (snd (runLearningCycle s acts), []) acts)"
  using foldl_learn_unflagged [OF assms]
  unfolding runLearningCycle_def by (simp add: Let_def split: prod.splits)

text \<open>
  With the default weights and one successful CTR fix, the first cycle returns a ctrGap
  weight of 0.2118 and the second, over the same action, 0.2235, with one more adjustment.
\<close>

theorem runLearningCycle_reapplies_unflagged_witness:
  "\<not> learningApplied ctrFixSuccess \<and>
   newWeights (fst (runLearningCycle (snd (runLearningCycle defaultAdjuster [ctrFixSuccess])) [ctrFixSuccess])) =
     normalizeWeights (weights (fst (foldl processAction (snd (runLearningCycle defaultAdjuster [ctrFixSuccess]), []) [ctrFixSuccess]))) \<and>
   adjustments (fst (runLearningCycle (snd (runLearningCycle defaultAdjuster [ctrFixSuccess])) [ctrFixSuccess])) =
     snd (foldl processAction (snd (runLearningCycle defaultAdjuster [ctrFixSuccess]), []) [ctrFixSuccess]) \<and>
   newWeights (fst (runLearningCycle defaultAdjuster [ctrFixSuccess])) = mkWeights 0.197 0.197 0.2118 0.197 0.197 \<and>
   normalizeWeights (weights (fst (foldl processAction (snd (runLearningCycle defaultAdjuster [ctrFixSuccess]), []) [ctrFixSuccess]))) =
     mkWeights 0.1941 0.1941 0.2235 0.1941 0.1941 \<and>
   length (snd (foldl processAction (snd (runLearningCycle defaultAdjuster [ctrFixSuccess]), []) [ctrFixSuccess])) = 1"
proof -
  have a: "\<not> learningApplied ctrFixSuccess"
    by (simp add: ctrFixSuccess_def sampleAction_def)
  then have h: "\<forall>a\<in>set [ctrFixSuccess]. \<not> learningApplied a" by simp
  have e1: "newWeights (fst (runLearningCycle defaultAdjuster [ctrFixSuccess])) = mkWeights 0.197 0.197 0.2118 0.197 0.197"
    by (simp add: cycle_eval)
  have e2: "normalizeWeights (weights (fst (foldl processAction (snd (runLearningCycle defaultAdjuster [ctrFixSuccess]), []) [ctrFixSuccess]))) =
     mkWeights 0.1941 0.1941 0.2235 0.1941 0.1941"
    by (simp add: cycle_eval)
  have e3: "length (snd (foldl processAction (snd (runLearningCycle defaultAdjuster [ctrFixSuccess]), []) [ctrFixSuccess])) = 1"
    by (simp add: cycle_eval)
  from runLearningCycle_reapplies_unflagged [OF h, of defaultAdjuster] a e1 e2 e3 show ?thesis by blast
qed

section \<open>Rows of the model weight table\<close>

lemmas mw_eval = adjustWeight_def normalizeBucket_def rowTotal_def MODEL_IDS_def
  getWeight_def clamp_def round4_def js_round_def Let_def uniformRow_def DEFAULT_MODEL_WEIGHTS_def
  tieRow_def twoRow_def zeroRow_def sparseWeights_def adjustedRow_def weightOrZero_def

text \<open>Four roundings: the integer sum is off by at most 2, and by 2 only on four ties.\<close>

lemma round4_sum:
  fixes a b c d :: real
  assumes "a + b + c + d = 10000"
  shows "\<bar>js_round a + js_round b + js_round c + js_round d - 10000\<bar> \<le> 2"
proof -
  let ?n = "js_round a + js_round b + js_round c + js_round d"
  have up: "real_of_int ?n \<le> 10000 + 2"
    using js_round_upper [of a] js_round_upper [of b] js_round_upper [of c]
      js_round_upper [of d] assms by simp
  have lo: "10000 - 2 < real_of_int ?n"
    using js_round_lower [of a] js_round_lower [of b] js_round_lower [of c]
      js_round_lower [of d] assms by simp
  from up have "?n \<le> 10002" by linarith
  moreover from lo have "9998 < ?n" by linarith
  ultimately show ?thesis by linarith
qed

lemma rowTotal_cells: "rowTotal row = cell row claude + cell row openai + cell row gemini + cell row grok"
  unfolding rowTotal_def MODEL_IDS_def cell_def
  by (simp split: option.splits)

lemma cell_normalized:
  "cell (\<lambda>mid. map_option (\<lambda>v. round4 (v / t)) (row mid)) m = round4 (cell row m / t)"
  unfolding cell_def by (simp add: round4_0 split: option.splits)

lemma normalizeBucket_total:
  assumes "rowTotal (w bucket) \<noteq> 0"
  shows "\<bar>rowTotal (normalizeBucket w bucket bucket) - 1\<bar> \<le> 2 / 10000"
proof -
  let ?row = "w bucket"
  let ?t = "rowTotal ?row"
  let ?a = "cell ?row claude / ?t * 10000"
  let ?b = "cell ?row openai / ?t * 10000"
  let ?c = "cell ?row gemini / ?t * 10000"
  let ?d = "cell ?row grok / ?t * 10000"
  have "?a + ?b + ?c + ?d = (cell ?row claude + cell ?row openai + cell ?row gemini + cell ?row grok) / ?t * 10000"
    by (simp only: add_divide_distrib distrib_right)
  also have "\<dots> = ?t / ?t * 10000" by (simp add: rowTotal_cells)
  finally have s: "?a + ?b + ?c + ?d = 10000" using assms by simp
  let ?n = "js_round ?a + js_round ?b + js_round ?c + js_round ?d"
  have nb: "normalizeBucket w bucket bucket = (\<lambda>mid. map_option (\<lambda>v. round4 (v / ?t)) (?row mid))"
    using assms unfolding normalizeBucket_def by (simp add: Let_def)
  have "rowTotal (normalizeBucket w bucket bucket) =
      round4 (cell ?row claude / ?t) + round4 (cell ?row openai / ?t) +
      round4 (cell ?row gemini / ?t) + round4 (cell ?row grok / ?t)"
    unfolding nb by (simp only: rowTotal_cells cell_normalized)
  then have tot: "rowTotal (normalizeBucket w bucket bucket) = real_of_int ?n / 10000"
    by (simp add: round4_def add_divide_distrib)
  have "\<bar>?n - 10000\<bar> \<le> 2" using round4_sum [OF s] .
  then have "\<bar>real_of_int ?n - 10000\<bar> \<le> 2" by linarith
  then show ?thesis unfolding tot by (simp add: field_simps abs_if split: if_splits)
qed

lemma normalizeBucket_other: "b \<noteq> bucket \<Longrightarrow> normalizeBucket w bucket b = w b"
  unfolding normalizeBucket_def by (simp add: Let_def)

lemma normalizeBucket_zero: "rowTotal (w bucket) = 0 \<Longrightarrow> normalizeBucket w bucket = w"
  unfolding normalizeBucket_def by (simp add: Let_def)

lemma adjustWeight_alt:
  "adjustWeight w bucket modelId delta minW maxW =
     normalizeBucket (w(bucket := adjustedRow w bucket modelId delta minW maxW)) bucket"
  unfolding adjustWeight_def adjustedRow_def by (simp add: Let_def)

text \<open>
  Claim C2, as the code has it. For every weight table, category, provider, delta and
  clamp pair: when the category's row, with the clamped cell stored, has a total that is
  not zero, \<^verbatim>\<open>adjustWeight\<close> leaves that row summing to 1.0 within 2e-4 (a row has at
  most four cells, each rounded to four decimals); when that total is zero the row is not
  renormalised, it is left as the row with the clamped cell stored; and every other
  category's row is exactly as it was.
\<close>

theorem adjustWeight_row_total:
  "(rowTotal (adjustedRow w bucket modelId delta minW maxW) \<noteq> 0 \<longrightarrow>
      \<bar>rowTotal (adjustWeight w bucket modelId delta minW maxW bucket) - 1\<bar> \<le> 2 / 10000) \<and>
   (rowTotal (adjustedRow w bucket modelId delta minW maxW) = 0 \<longrightarrow>
      adjustWeight w bucket modelId delta minW maxW bucket =
        adjustedRow w bucket modelId delta minW maxW) \<and>
   (\<forall>b. b \<noteq> bucket \<longrightarrow> adjustWeight w bucket modelId delta minW maxW b = w b)"
proof (intro conjI impI allI)
  assume "rowTotal (adjustedRow w bucket modelId delta minW maxW) \<noteq> 0"
  then show "\<bar>rowTotal (adjustWeight w bucket modelId delta minW maxW bucket) - 1\<bar> \<le> 2 / 10000"
    unfolding adjustWeight_alt
    using normalizeBucket_total [of "w(bucket := adjustedRow w bucket modelId delta minW maxW)" bucket]
    by simp
next
  assume "rowTotal (adjustedRow w bucket modelId delta minW maxW) = 0"
  then show "adjustWeight w bucket modelId delta minW maxW bucket =
      adjustedRow w bucket modelId delta minW maxW"
    unfolding adjustWeight_alt
    using normalizeBucket_zero [of "w(bucket := adjustedRow w bucket modelId delta minW maxW)" bucket]
    by simp
next
  fix b assume "b \<noteq> bucket"
  then show "adjustWeight w bucket modelId delta minW maxW b = w b"
    unfolding adjustWeight_alt by (simp add: normalizeBucket_other)
qed

text \<open>
  The scenario of the specification: +0.1 on one provider of the uniform default row,
  clamp 0.05 to 0.6. The row becomes (0.3182, 0.2273, 0.2273, 0.2273), total 1.0001.
  And two rows whose total is zero once the cell is stored: a row of zeros with minWeight
  0, which stays a row of zeros; and the row (0.5, -0.25) with a delta of -0.25, which is
  left as (0.25, -0.25).
\<close>

theorem adjustWeight_row_total_witness:
  "rowTotal (adjustedRow DEFAULT_MODEL_WEIGHTS CTR_FIX claude 0.1 0.05 0.6) \<noteq> 0 \<and>
   \<bar>rowTotal (adjustWeight DEFAULT_MODEL_WEIGHTS CTR_FIX claude 0.1 0.05 0.6 CTR_FIX) - 1\<bar> \<le> 2 / 10000 \<and>
   MONITOR \<noteq> CTR_FIX \<and>
   adjustWeight DEFAULT_MODEL_WEIGHTS CTR_FIX claude 0.1 0.05 0.6 MONITOR = DEFAULT_MODEL_WEIGHTS MONITOR \<and>
   rowTotal (adjustWeight DEFAULT_MODEL_WEIGHTS CTR_FIX claude 0.1 0.05 0.6 CTR_FIX) = 1.0001 \<and>
   rowTotal (adjustedRow (\<lambda>b. zeroRow) CTR_FIX claude 0 0 0.6) = 0 \<and>
   adjustWeight (\<lambda>b. zeroRow) CTR_FIX claude 0 0 0.6 CTR_FIX = zeroRow \<and>
   rowTotal (adjustedRow (\<lambda>b. offsetRow) CTR_FIX claude (- 0.25) 0 0.6) = 0 \<and>
   adjustWeight (\<lambda>b. offsetRow) CTR_FIX claude (- 0.25) 0 0.6 CTR_FIX = [claude \<mapsto> 0.25, openai \<mapsto> - 0.25]"
proof -
  have h: "rowTotal (adjustedRow DEFAULT_MODEL_WEIGHTS CTR_FIX claude 0.1 0.05 0.6) \<noteq> 0"
    by (simp add: mw_eval)
  have n: "MONITOR \<noteq> CTR_FIX" by simp
  have v: "rowTotal (adjustWeight DEFAULT_MODEL_WEIGHTS CTR_FIX claude 0.1 0.05 0.6 CTR_FIX) = 1.0001"
    by (simp add: mw_eval)
  have z: "rowTotal (adjustedRow (\<lambda>b. zeroRow) CTR_FIX claude 0 0 0.6) = 0"
    by (simp add: mw_eval)
  have zr: "adjustedRow (\<lambda>b. zeroRow) CTR_FIX claude 0 0 0.6 = zeroRow"
    by (simp add: adjustedRow_def zeroRow_def clamp_def fun_eq_iff)
  have o: "rowTotal (adjustedRow (\<lambda>b. offsetRow) CTR_FIX claude (- 0.25) 0 0.6) = 0"
    by (simp add: mw_eval offsetRow_def)
  have or: "adjustedRow (\<lambda>b. offsetRow) CTR_FIX claude (- 0.25) 0 0.6 = [claude \<mapsto> 0.25, openai \<mapsto> - 0.25]"
    by (simp add: adjustedRow_def offsetRow_def clamp_def fun_eq_iff)
  from adjustWeight_row_total [of DEFAULT_MODEL_WEIGHTS CTR_FIX claude "0.1" "0.05" "0.6"]
    adjustWeight_row_total [of "\<lambda>b. zeroRow" CTR_FIX claude 0 0 "0.6"]
    adjustWeight_row_total [of "\<lambda>b. offsetRow" CTR_FIX claude "- 0.25" 0 "0.6"]
    h n v z zr o or
  show ?thesis by simp
qed

text \<open>
  Claim C2 as stated fails on the row total. On the row (0.25005, 0.25005, 0.25005,
  0.24985) a delta of 0 leaves the total at 1 and every cell on a tie, all four round up
  and the row sums to 1.0002. On a row of zeros with minWeight 0 the total stays 0 and
  the row is returned as it is.
\<close>

theorem adjustWeight_row_total_counterexample:
  "\<not> \<bar>rowTotal (adjustWeight (\<lambda>b. tieRow) CTR_FIX claude 0 0.05 0.6 CTR_FIX) - 1\<bar> \<le> 1 / 10000 \<and>
   rowTotal (adjustWeight (\<lambda>b. tieRow) CTR_FIX claude 0 0.05 0.6 CTR_FIX) = 1.0002 \<and>
   \<not> \<bar>rowTotal (adjustWeight (\<lambda>b. zeroRow) CTR_FIX claude 0 0 0.6 CTR_FIX) - 1\<bar> \<le> 1 / 10000 \<and>
   rowTotal (adjustWeight (\<lambda>b. zeroRow) CTR_FIX claude 0 0 0.6 CTR_FIX) = 0"
  by (simp add: mw_eval)

section \<open>Missing weight entries\<close>

lemma weightOrZero_missing:
  "row m = None \<Longrightarrow> weightOrZero (row(m \<mapsto> 0)) = weightOrZero row"
  unfolding weightOrZero_def by (auto simp: fun_eq_iff)

lemma route_raises: "(\<exists>d. route registry w bucket = Inr d) \<longleftrightarrow> getAvailableIds registry \<noteq> []"
  unfolding route_def by (simp add: Let_def)

text \<open>
  Claim C9, as the code has it. For a provider with no cell in a category's row:
  \<^verbatim>\<open>getWeight\<close> returns 0; \<^verbatim>\<open>adjustWeight\<close> does what it does on the table whose
  cell holds 0.25; \<^verbatim>\<open>route\<close> decides as it does on the table whose cell holds 0, and
  raises only when no model is available. None of the three raises for the missing cell.
\<close>

theorem missing_weight_defaults:
  assumes "w bucket modelId = None"
  shows "getWeight w bucket modelId = 0 \<and>
         adjustWeight w bucket modelId delta minW maxW =
           adjustWeight (w(bucket := (w bucket)(modelId \<mapsto> 0.25))) bucket modelId delta minW maxW \<and>
         route registry w bucket = route registry (w(bucket := (w bucket)(modelId \<mapsto> 0))) bucket \<and>
         ((\<exists>d. route registry w bucket = Inr d) \<longleftrightarrow> getAvailableIds registry \<noteq> [])"
proof -
  have g: "getWeight w bucket modelId = 0" using assms by (simp add: getWeight_def)
  have a: "adjustWeight w bucket modelId delta minW maxW =
           adjustWeight (w(bucket := (w bucket)(modelId \<mapsto> 0.25))) bucket modelId delta minW maxW"
    using assms by (simp add: adjustWeight_def Let_def)
  have r: "route registry w bucket = route registry (w(bucket := (w bucket)(modelId \<mapsto> 0))) bucket"
    using weightOrZero_missing [of "w bucket" modelId] assms by (simp add: route_def Let_def)
  from g a r route_raises show ?thesis by blast
qed

theorem missing_weight_defaults_witness:
  "sparseWeights CTR_FIX claude = None \<and>
   getWeight sparseWeights CTR_FIX claude = 0 \<and>
   adjustWeight sparseWeights CTR_FIX claude 0.1 0.05 0.6 =
     adjustWeight (sparseWeights(CTR_FIX := (sparseWeights CTR_FIX)(claude \<mapsto> 0.25))) CTR_FIX claude 0.1 0.05 0.6 \<and>
   route sampleRegistry sparseWeights CTR_FIX =
     route sampleRegistry (sparseWeights(CTR_FIX := (sparseWeights CTR_FIX)(claude \<mapsto> 0))) CTR_FIX \<and>
   route sampleRegistry sparseWeights CTR_FIX =
     Inr \<lparr> models = [claude, openai, grok], primary = openai, strategy = RS_all,
           routeReason = ManyAvailable 3 openai 50 \<rparr>"
proof -
  have h: "sparseWeights CTR_FIX claude = None" by (simp add: sparseWeights_def twoRow_def)
  have v: "route sampleRegistry sparseWeights CTR_FIX =
     Inr \<lparr> models = [claude, openai, grok], primary = openai, strategy = RS_all,
           routeReason = ManyAvailable 3 openai 50 \<rparr>"
    by (simp add: route_def getAvailableIds_def sampleRegistry_def sparseWeights_def twoRow_def
        weightOrZero_def toFixed0_def Let_def)
  from missing_weight_defaults [of sparseWeights CTR_FIX claude "0.1" "0.05" "0.6" sampleRegistry] h v
  show ?thesis by blast
qed

text \<open>
  Claim C9 as stated fails for \<^verbatim>\<open>adjustWeight\<close>. On the row (openai 0.5, gemini 0.5)
  with no cell for claude, +0.1 on claude stores 0.35 and the cell ends at 0.2593; had the
  missing cell counted as 0, it would have stored 0.1 and ended at 0.0909.
\<close>

theorem missing_weight_counterexample:
  "sparseWeights CTR_FIX claude = None \<and>
   getWeight (adjustWeight sparseWeights CTR_FIX claude 0.1 0.05 0.6) CTR_FIX claude = 0.2593 \<and>
   getWeight (adjustWeight (sparseWeights(CTR_FIX := (sparseWeights CTR_FIX)(claude \<mapsto> 0)))
      CTR_FIX claude 0.1 0.05 0.6) CTR_FIX claude = 0.0909 \<and>
   getWeight (adjustWeight sparseWeights CTR_FIX claude 0.1 0.05 0.6) CTR_FIX claude \<noteq>
   getWeight (adjustWeight (sparseWeights(CTR_FIX := (sparseWeights CTR_FIX)(claude \<mapsto> 0)))
      CTR_FIX claude 0.1 0.05 0.6) CTR_FIX claude"
  by (simp add: mw_eval)

section \<open>The opportunity score\<close>

lemma clamp_unit: "0 \<le> clamp v 0 1 \<and> clamp v 0 1 \<le> 1"
  unfolding clamp_def by auto

lemma logScaled_unit: "logScaled v d = Some x \<Longrightarrow> 0 \<le> x \<and> x \<le> 1"
  unfolding logScaled_def using clamp_unit by (auto split: if_splits)

lemma logScaled_defined: "- 1 \<le> v \<Longrightarrow> \<exists>x. logScaled v d = Some x"
  unfolding logScaled_def by auto

lemma normalizeCTRGap_unit: "0 \<le> normalizeCTRGap curve p c \<and> normalizeCTRGap curve p c \<le> 1"
  unfolding normalizeCTRGap_def using clamp_unit by (simp add: Let_def)

lemma weighted_sum_bounds:
  fixes a b c d e :: real
  assumes "0 \<le> wa" "0 \<le> wb" "0 \<le> wc" "0 \<le> wd" "0 \<le> we"
    and "0 \<le> a \<and> a \<le> 1" "0 \<le> b \<and> b \<le> 1" "0 \<le> c \<and> c \<le> 1" "0 \<le> d \<and> d \<le> 1" "0 \<le> e \<and> e \<le> 1"
  shows "0 \<le> wa * a + wb * b + wc * c + wd * d + we * e \<and>
         wa * a + wb * b + wc * c + wd * d + we * e \<le> wa + wb + wc + wd + we"
proof -
  have p: "\<And>w x::real. 0 \<le> w \<Longrightarrow> 0 \<le> x \<and> x \<le> 1 \<Longrightarrow> 0 \<le> w * x \<and> w * x \<le> w"
    by (simp add: mult_left_le)
  from p [OF assms(1) assms(6)] p [OF assms(2) assms(7)] p [OF assms(3) assms(8)]
    p [OF assms(4) assms(9)] p [OF assms(5) assms(10)]
  show ?thesis by linarith
qed

lemma round4_grid: "round4 (round4 x) = round4 x"
  unfolding round4_def js_round_def by simp

text \<open>
  Claim C4, as the code has it. For a page whose impressions and conversions are not
  below -1 (so that no logarithm is \<^verbatim>\<open>NaN\<close>) and weights that are not negative,
  \<^verbatim>\<open>calculateScore\<close> returns a number, rounded to four decimals, between 0 and the
  rounded sum of the weights: at most 1.0001 under the content-weight invariant, and at
  most 1 when the weights sum to at most 1. The other metrics are arbitrary.
\<close>

theorem calculateScore_bounds:
  assumes "- 1 \<le> impressions page" and "- 1 \<le> conversions page"
    and "weightsWithin lo hi w" and "0 \<le> lo"
  shows "\<exists>v. calculateScore w curve page = Some v \<and> round4 v = v \<and> 0 \<le> v \<and>
             v \<le> round4 (totalWeight w) \<and>
             (totalWeight w \<le> 1 + 1 / 10000 \<longrightarrow> v \<le> 1 + 1 / 10000) \<and>
             (totalWeight w \<le> 1 \<longrightarrow> v \<le> 1)"
proof -
  obtain ni where ni: "normalizeImpressions (impressions page) = Some ni"
    using logScaled_defined [OF assms(1)] unfolding normalizeImpressions_def by blast
  obtain nc where nc: "normalizeConversions (conversions page) = Some nc"
    using logScaled_defined [OF assms(2)] unfolding normalizeConversions_def by blast
  have uni: "0 \<le> ni \<and> ni \<le> 1" using ni logScaled_unit unfolding normalizeImpressions_def by blast
  have unc: "0 \<le> nc \<and> nc \<le> 1" using nc logScaled_unit unfolding normalizeConversions_def by blast
  let ?np = "normalizePosition (position page)"
  let ?ng = "normalizeCTRGap curve (position page) (ctr page)"
  let ?nf = "normalizeFreshness (freshnessScore page)"
  let ?raw = "w_impressions w * ni + w_position w * ?np + w_ctrGap w * ?ng + w_conversions w * nc + w_freshness w * ?nf"
  have unp: "0 \<le> ?np \<and> ?np \<le> 1" unfolding normalizePosition_def by (rule clamp_unit)
  have unf: "0 \<le> ?nf \<and> ?nf \<le> 1" unfolding normalizeFreshness_def by (rule clamp_unit)
  have ung: "0 \<le> ?ng \<and> ?ng \<le> 1" by (rule normalizeCTRGap_unit)
  from assms(3,4) have wpos: "0 \<le> w_impressions w" "0 \<le> w_position w" "0 \<le> w_ctrGap w"
    "0 \<le> w_conversions w" "0 \<le> w_freshness w"
    unfolding weightsWithin_def by linarith+
  have raw: "0 \<le> ?raw \<and> ?raw \<le> totalWeight w"
    using weighted_sum_bounds [OF wpos uni unp ung unc unf] unfolding totalWeight_def by simp
  have score: "calculateScore w curve page = Some (round4 ?raw)"
    unfolding calculateScore_def getNormalizedScores_def using ni nc by (simp add: Let_def)
  have lo: "0 \<le> round4 ?raw" using round4_mono [of 0 ?raw] raw by (simp add: round4_0)
  have hi: "round4 ?raw \<le> round4 (totalWeight w)" using round4_mono raw by blast
  have r1: "round4 (1 + 1 / 10000) = 1 + 1 / 10000" unfolding round4_def js_round_def by simp
  have hi1: "totalWeight w \<le> 1 + 1 / 10000 \<longrightarrow> round4 ?raw \<le> 1 + 1 / 10000"
    using round4_mono [of ?raw "1 + 1 / 10000"] raw r1 by auto
  have hi2: "totalWeight w \<le> 1 \<longrightarrow> round4 ?raw \<le> 1"
    using round4_mono [of ?raw 1] raw by (auto simp: round4_1)
  from score lo hi hi1 hi2 round4_grid [of ?raw] show ?thesis by blast
qed

lemma log10_100000: "log 10 (100000::real) = 5"
proof -
  have "log 10 ((10::real) ^ 5) = real 5" by (rule log_pow_cancel) simp_all
  then show ?thesis by simp
qed

lemma log10_1000: "log 10 (1000::real) = 3"
proof -
  have "log 10 ((10::real) ^ 3) = real 3" by (rule log_pow_cancel) simp_all
  then show ?thesis by simp
qed

lemma log10_100: "log 10 (100::real) = 2"
proof -
  have "log 10 ((10::real) ^ 2) = real 2" by (rule log_pow_cancel) simp_all
  then show ?thesis by simp
qed

lemma log10_10: "log 10 (10::real) = 1"
  by simp

lemmas scorer_eval = calculateScore_def getNormalizedScores_def normalizeImpressions_def
  normalizeConversions_def normalizePosition_def normalizeCTRGap_def normalizeFreshness_def
  logScaled_def getExpectedCTR_def DEFAULT_CTR_CURVE_def clamp_def round4_def js_round_def Let_def
  samplePage_def saturatedPage_def negativePage_def typicalPage_def mkWeights_def weightsWithin_def
  totalWeight_def DEFAULT_WEIGHTS_def log10_100000 log10_1000 log10_100 log10_10

text \<open>
  A page at position 4 with 999 impressions, CTR 2 percent, 9 conversions and freshness
  0.5 scores 0.6596 under the default weights.
\<close>

theorem calculateScore_bounds_witness:
  "- 1 \<le> impressions typicalPage \<and> - 1 \<le> conversions typicalPage \<and>
   weightsWithin 0.05 0.5 DEFAULT_WEIGHTS \<and> (0::real) \<le> 0.05 \<and>
   totalWeight DEFAULT_WEIGHTS \<le> 1 \<and>
   calculateScore DEFAULT_WEIGHTS DEFAULT_CTR_CURVE typicalPage = Some 0.6596 \<and>
   (\<exists>v. calculateScore DEFAULT_WEIGHTS DEFAULT_CTR_CURVE typicalPage = Some v \<and> round4 v = v \<and>
        0 \<le> v \<and> v \<le> 1)"
proof -
  have i: "- 1 \<le> impressions typicalPage" by (simp add: typicalPage_def samplePage_def)
  have c: "- 1 \<le> conversions typicalPage" by (simp add: typicalPage_def samplePage_def)
  have w: "weightsWithin 0.05 0.5 DEFAULT_WEIGHTS" by (simp add: weightsWithin_def DEFAULT_WEIGHTS_def)
  have l: "(0::real) \<le> 0.05" by simp
  have t: "totalWeight DEFAULT_WEIGHTS \<le> 1" by (simp add: totalWeight_def DEFAULT_WEIGHTS_def)
  have v: "calculateScore DEFAULT_WEIGHTS DEFAULT_CTR_CURVE typicalPage = Some 0.6596"
    by (simp add: scorer_eval)
  from calculateScore_bounds [OF i c w l, of DEFAULT_CTR_CURVE] t
  have "\<exists>v. calculateScore DEFAULT_WEIGHTS DEFAULT_CTR_CURVE typicalPage = Some v \<and> round4 v = v \<and>
        0 \<le> v \<and> v \<le> 1" by blast
  with i c w l t v show ?thesis by blast
qed

text \<open>
  Claim C4 as stated fails twice. The weights (0.2001, 0.2, 0.2, 0.2, 0.2) satisfy the
  invariant (each within 0.05 and 0.5, sum 1.0001) and a page whose five normalised
  components are all 1 scores 1.0001. And a page with -2 impressions has no score: the
  logarithm of -1 is \<^verbatim>\<open>NaN\<close>.
\<close>

theorem calculateScore_counterexample:
  "weightsWithin 0.05 0.5 (mkWeights 0.2001 0.2 0.2 0.2 0.2) \<and>
   \<bar>totalWeight (mkWeights 0.2001 0.2 0.2 0.2 0.2) - 1\<bar> \<le> 1 / 10000 \<and>
   calculateScore (mkWeights 0.2001 0.2 0.2 0.2 0.2) DEFAULT_CTR_CURVE saturatedPage = Some 1.0001 \<and>
   weightsWithin 0.05 0.5 DEFAULT_WEIGHTS \<and> totalWeight DEFAULT_WEIGHTS = 1 \<and>
   calculateScore DEFAULT_WEIGHTS DEFAULT_CTR_CURVE negativePage = None"
  by (simp add: scorer_eval)

section \<open>The classifier\<close>

text \<open>
  Claim C5. \<^verbatim>\<open>classify\<close> has no failing branch and returns one of the five
  categories; and a page whose position is at most the MONITOR maxPosition is MONITOR,
  whatever its impressions, CTR, locality and intent.
\<close>

theorem classify_total_monitor_first:
  "classify lower criteria curve page \<in> {CTR_FIX, STRIKING_DISTANCE, RELEVANCE_REBUILD, LOCAL_BOOST, MONITOR} \<and>
   (\<exists>!b. classify lower criteria curve page = b) \<and>
   (position page \<le> monitor_maxPosition criteria \<longrightarrow> classify lower criteria curve page = MONITOR)"
proof -
  have "classify lower criteria curve page \<in> {CTR_FIX, STRIKING_DISTANCE, RELEVANCE_REBUILD, LOCAL_BOOST, MONITOR}"
    by (cases "classify lower criteria curve page") simp_all
  moreover have "position page \<le> monitor_maxPosition criteria \<longrightarrow> classify lower criteria curve page = MONITOR"
    by (simp add: classify_def isMonitor_def)
  ultimately show ?thesis by blast
qed

text \<open>
  At position 2, a page with 10000 impressions and no clicks meets the CTR-gap rule and
  carries a local keyword; under the default criteria (maxPosition 3) it is MONITOR.
\<close>

theorem classify_total_monitor_first_witness:
  "position topLocalPage \<le> monitor_maxPosition BUCKET_CRITERIA \<and>
   monitor_maxPosition BUCKET_CRITERIA = 3 \<and>
   isCTRFix BUCKET_CRITERIA DEFAULT_CTR_CURVE topLocalPage \<and>
   detectLocalIntent asciiLower topLocalPage \<and>
   classify asciiLower BUCKET_CRITERIA DEFAULT_CTR_CURVE topLocalPage = MONITOR"
proof -
  have p: "position topLocalPage \<le> monitor_maxPosition BUCKET_CRITERIA"
    by (simp add: topLocalPage_def samplePage_def BUCKET_CRITERIA_def)
  have m: "monitor_maxPosition BUCKET_CRITERIA = 3" by (simp add: BUCKET_CRITERIA_def)
  have f: "isCTRFix BUCKET_CRITERIA DEFAULT_CTR_CURVE topLocalPage"
    by (simp add: isCTRFix_def topLocalPage_def samplePage_def BUCKET_CRITERIA_def
        getExpectedCTR_def DEFAULT_CTR_CURVE_def js_round_def Let_def)
  have d: "detectLocalIntent asciiLower topLocalPage" by code_simp
  from classify_total_monitor_first
      [where lower = asciiLower and criteria = BUCKET_CRITERIA and curve = DEFAULT_CTR_CURVE
         and page = topLocalPage] p m f d
  show ?thesis by blast
qed

section \<open>The consensus engine: failure and the single strategy\<close>

lemma length_map_filter_eq:
  "length (List.map_filter f xs) = length (filter (\<lambda>x. f x \<noteq> None) xs)"
  by (simp add: List.map_filter_def)

lemma map_filter_empty_iff:
  "List.map_filter f xs = [] \<longleftrightarrow> (\<forall>x\<in>set xs. f x = None)"
  by (induction xs) (auto split: option.splits)

lemma collect_briefs: "c \<in> set (collectFulfilled bw page bkt adapters) \<Longrightarrow> \<exists>b. contribBrief c = Some b"
  unfolding collectFulfilled_def List.map_filter_def contributionOf_def by auto

lemma collect_weight:
  "c \<in> set (collectFulfilled bw page bkt adapters) \<Longrightarrow> contribWeight c = weightOrZero bw (contribModelId c)"
  unfolding collectFulfilled_def List.map_filter_def contributionOf_def weightOrZero_def by auto

lemma collect_length:
  "length (collectFulfilled bw page bkt adapters) = length (filter (\<lambda>a. generateBrief a page bkt \<noteq> None) adapters)"
  unfolding collectFulfilled_def by (simp add: length_map_filter_eq)

lemma collect_empty_iff:
  "collectFulfilled bw page bkt adapters = [] \<longleftrightarrow> (\<forall>a\<in>set adapters. generateBrief a page bkt = None)"
  unfolding collectFulfilled_def by (simp add: map_filter_empty_iff)

lemma sort_key_nonempty: "xs \<noteq> [] \<Longrightarrow> sort_key f xs \<noteq> []"
  by (metis length_0_conv length_sort)

lemma hd_in_set_sort: "xs \<noteq> [] \<Longrightarrow> hd (sort_key f xs) \<in> set xs"
proof -
  assume "xs \<noteq> []"
  then have "sort_key f xs \<noteq> []" by (rule sort_key_nonempty)
  then have "hd (sort_key f xs) \<in> set (sort_key f xs)" by (rule hd_in_set)
  then show ?thesis by (simp only: set_sort)
qed

lemma mergeBriefs_ok:
  assumes "cs \<noteq> []" and "\<forall>c\<in>set cs. \<exists>b. contribBrief c = Some b"
  shows "\<exists>m. mergeBriefs lower cs bw page bkt = Inr m"
proof -
  let ?present = "List.map_filter (\<lambda>c. map_option (Pair (contribModelId c)) (contribBrief c)) cs"
  have "?present \<noteq> []" using assms by (cases cs) (auto split: option.splits)
  then have "sortByWeight cs bw \<noteq> []" unfolding sortByWeight_def by (rule sort_key_nonempty)
  then obtain c rest where "sortByWeight cs bw = c # rest" by (cases "sortByWeight cs bw") auto
  then show ?thesis unfolding mergeBriefs_def by (simp add: Let_def)
qed

lemma aggregate_ok:
  assumes "cs \<noteq> []" and "\<forall>c\<in>set cs. \<exists>b. contribBrief c = Some b"
  shows "\<exists>r. aggregate lower thr cs bw page bkt = Inr r"
proof -
  let ?sorted = "sort_key (\<lambda>c. - contribWeight c) cs"
  have sne: "?sorted \<noteq> []" using assms(1) by (rule sort_key_nonempty)
  have sb: "\<forall>c\<in>set ?sorted. \<exists>b. contribBrief c = Some b" using assms(2) by (simp only: set_sort)
  obtain b2 where hs: "contribBrief (hd ?sorted) = Some b2"
    using hd_in_set_sort [OF assms(1)] assms(2) by blast
  obtain m where m: "mergeBriefs lower ?sorted bw page bkt = Inr m"
    using mergeBriefs_ok [OF sne sb] by blast
  show ?thesis
  proof (cases "reachesThreshold (calculateConfidence lower (List.map_filter contribBrief cs)) thr")
    case True
    then show ?thesis unfolding aggregate_def by (simp add: Let_def m)
  next
    case False
    then show ?thesis unfolding aggregate_def by (simp add: Let_def hs)
  qed
qed

lemma generateConsensus_multi_ok:
  assumes "length adapters \<noteq> 1" and "collectFulfilled (mw bkt) page bkt adapters \<noteq> []"
  shows "\<exists>r. generateConsensus lower thr adapters page bkt mw = Inr r"
proof -
  let ?cs = "collectFulfilled (mw bkt) page bkt adapters"
  have "hd ?cs \<in> set ?cs" using assms(2) by (rule hd_in_set)
  then obtain b1 where hb: "contribBrief (hd ?cs) = Some b1"
    using collect_briefs [of "hd ?cs" "mw bkt" page bkt adapters] by blast
  have sb: "\<forall>c\<in>set ?cs. \<exists>b. contribBrief c = Some b"
    using collect_briefs [of _ "mw bkt" page bkt adapters] by blast
  obtain r where r: "aggregate lower thr ?cs (mw bkt) page bkt = Inr r"
    using aggregate_ok [OF assms(2) sb] by blast
  show ?thesis
    unfolding generateConsensus_def using assms hb r by (simp add: Let_def)
qed

lemma generateConsensus_multi_single:
  assumes "length adapters \<noteq> 1" and "length (collectFulfilled (mw bkt) page bkt adapters) = 1"
  shows "\<exists>r. generateConsensus lower thr adapters page bkt mw = Inr r \<and>
             consensusStrategy r = CS_single \<and> confidence r = Some 1"
proof -
  let ?cs = "collectFulfilled (mw bkt) page bkt adapters"
  have ne: "?cs \<noteq> []" using assms(2) by auto
  then have "hd ?cs \<in> set ?cs" by (rule hd_in_set)
  then obtain b1 where hb: "contribBrief (hd ?cs) = Some b1"
    using collect_briefs [of "hd ?cs" "mw bkt" page bkt adapters] by blast
  show ?thesis
    unfolding generateConsensus_def using assms ne by (simp add: Let_def hb)
qed

lemma generateConsensus_multi_fail:
  assumes "length adapters \<noteq> 1" and "collectFulfilled (mw bkt) page bkt adapters = []"
  shows "generateConsensus lower thr adapters page bkt mw = Inl AllAdaptersFailed"
  unfolding generateConsensus_def using assms by (simp add: Let_def)

lemma generateConsensus_one:
  assumes "length adapters = 1"
  shows "generateConsensus lower thr adapters page bkt mw =
     (case generateBrief (hd adapters) page bkt of
        None \<Rightarrow> Inl AdapterRejected
      | Some b \<Rightarrow>
          Inr \<lparr> brief = b, confidence = Some 1,
                contributions = [contributionOf (mw bkt) 1 (adapterId (hd adapters)) b],
                primaryModel = adapterId (hd adapters),
                consensusStrategy = CS_single \<rparr>)"
  using assms unfolding generateConsensus_def by (simp add: Let_def)

text \<open>
  Claim C3. With two or more adapters, \<^verbatim>\<open>generateConsensus\<close> raises exactly
  when every adapter's brief generation fails; when exactly one of them succeeds the
  outcome has strategy single and confidence 1. With one adapter the call returns exactly
  when that adapter succeeds, and every outcome it returns has strategy single and
  confidence 1.
\<close>

theorem generateConsensus_failure_and_single:
  "(2 \<le> length adapters \<longrightarrow>
      ((\<exists>e. generateConsensus lower thr adapters page bkt mw = Inl e) \<longleftrightarrow>
       (\<forall>a\<in>set adapters. generateBrief a page bkt = None))) \<and>
   (2 \<le> length adapters \<and> length (filter (\<lambda>a. generateBrief a page bkt \<noteq> None) adapters) = 1 \<longrightarrow>
      (\<exists>r. generateConsensus lower thr adapters page bkt mw = Inr r \<and>
           consensusStrategy r = CS_single \<and> confidence r = Some 1)) \<and>
   (length adapters = 1 \<longrightarrow>
      ((\<exists>r. generateConsensus lower thr adapters page bkt mw = Inr r) \<longleftrightarrow>
         generateBrief (hd adapters) page bkt \<noteq> None) \<and>
      (\<forall>r. generateConsensus lower thr adapters page bkt mw = Inr r \<longrightarrow>
         consensusStrategy r = CS_single \<and> confidence r = Some 1))"
proof (intro conjI impI)
  assume two: "2 \<le> length adapters"
  then have n1: "length adapters \<noteq> 1" by simp
  show "(\<exists>e. generateConsensus lower thr adapters page bkt mw = Inl e) \<longleftrightarrow>
        (\<forall>a\<in>set adapters. generateBrief a page bkt = None)"
  proof (cases "collectFulfilled (mw bkt) page bkt adapters = []")
    case True
    then show ?thesis
      using generateConsensus_multi_fail
        [where adapters = adapters and mw = mw and bkt = bkt and page = page and thr = thr
           and lower = lower] n1
        collect_empty_iff [of "mw bkt" page bkt adapters]
      by simp
  next
    case False
    then show ?thesis
      using generateConsensus_multi_ok
        [where adapters = adapters and mw = mw and bkt = bkt and page = page and thr = thr
           and lower = lower] n1
        collect_empty_iff [of "mw bkt" page bkt adapters]
      by auto
  qed
next
  assume h: "2 \<le> length adapters \<and> length (filter (\<lambda>a. generateBrief a page bkt \<noteq> None) adapters) = 1"
  then have n1: "length adapters \<noteq> 1" by simp
  from h have "length (collectFulfilled (mw bkt) page bkt adapters) = 1" by (simp add: collect_length)
  from generateConsensus_multi_single
    [where adapters = adapters and mw = mw and bkt = bkt and page = page and thr = thr
       and lower = lower] n1 this
  show "\<exists>r. generateConsensus lower thr adapters page bkt mw = Inr r \<and>
           consensusStrategy r = CS_single \<and> confidence r = Some 1" by blast
next
  assume one: "length adapters = 1"
  show "(\<exists>r. generateConsensus lower thr adapters page bkt mw = Inr r) \<longleftrightarrow>
         generateBrief (hd adapters) page bkt \<noteq> None"
    unfolding generateConsensus_one [OF one] by (cases "generateBrief (hd adapters) page bkt") simp_all
next
  assume one: "length adapters = 1"
  show "\<forall>r. generateConsensus lower thr adapters page bkt mw = Inr r \<longrightarrow>
         consensusStrategy r = CS_single \<and> confidence r = Some 1"
    unfolding generateConsensus_one [OF one] by (cases "generateBrief (hd adapters) page bkt") auto
qed

theorem generateConsensus_failure_and_single_witness:
  "2 \<le> length oneOfThree \<and>
   length (filter (\<lambda>a. generateBrief a typicalPage CTR_FIX \<noteq> None) oneOfThree) = 1 \<and>
   (\<exists>r. generateConsensus asciiLower 0.7 oneOfThree typicalPage CTR_FIX DEFAULT_MODEL_WEIGHTS = Inr r \<and>
        consensusStrategy r = CS_single \<and> confidence r = Some 1) \<and>
   2 \<le> length noneOfTwo \<and>
   (\<exists>e. generateConsensus asciiLower 0.7 noneOfTwo typicalPage CTR_FIX DEFAULT_MODEL_WEIGHTS = Inl e) \<and>
   length onlyClaude = 1 \<and>
   (\<exists>r. generateConsensus asciiLower 0.7 onlyClaude typicalPage CTR_FIX DEFAULT_MODEL_WEIGHTS = Inr r \<and>
        consensusStrategy r = CS_single \<and> confidence r = Some 1)"
proof -
  have l1: "2 \<le> length oneOfThree" by (simp add: oneOfThree_def)
  have f1: "length (filter (\<lambda>a. generateBrief a typicalPage CTR_FIX \<noteq> None) oneOfThree) = 1"
    by (simp add: oneOfThree_def okAdapter_def failAdapter_def)
  have l2: "2 \<le> length noneOfTwo" by (simp add: noneOfTwo_def)
  have f2: "\<forall>a\<in>set noneOfTwo. generateBrief a typicalPage CTR_FIX = None"
    by (simp add: noneOfTwo_def failAdapter_def)
  have l3: "length onlyClaude = 1" by (simp add: onlyClaude_def)
  have f3: "generateBrief (hd onlyClaude) typicalPage CTR_FIX \<noteq> None"
    by (simp add: onlyClaude_def okAdapter_def)
  have c1: "\<exists>r. generateConsensus asciiLower 0.7 oneOfThree typicalPage CTR_FIX DEFAULT_MODEL_WEIGHTS = Inr r \<and>
        consensusStrategy r = CS_single \<and> confidence r = Some 1"
    using generateConsensus_failure_and_single
      [where adapters = oneOfThree and thr = "0.7" and page = typicalPage and bkt = CTR_FIX
         and mw = DEFAULT_MODEL_WEIGHTS and lower = asciiLower] l1 f1 by blast
  have c2: "\<exists>e. generateConsensus asciiLower 0.7 noneOfTwo typicalPage CTR_FIX DEFAULT_MODEL_WEIGHTS = Inl e"
    using generateConsensus_failure_and_single
      [where adapters = noneOfTwo and thr = "0.7" and page = typicalPage and bkt = CTR_FIX
         and mw = DEFAULT_MODEL_WEIGHTS and lower = asciiLower] l2 f2 by blast
  have c3: "\<exists>r. generateConsensus asciiLower 0.7 onlyClaude typicalPage CTR_FIX DEFAULT_MODEL_WEIGHTS = Inr r \<and>
        consensusStrategy r = CS_single \<and> confidence r = Some 1"
    using generateConsensus_failure_and_single
      [where adapters = onlyClaude and thr = "0.7" and page = typicalPage and bkt = CTR_FIX
         and mw = DEFAULT_MODEL_WEIGHTS and lower = asciiLower] l3 f3 by blast
  from l1 f1 c1 l2 c2 l3 c3 show ?thesis by blast
qed

section \<open>The consensus engine: merged headings\<close>

lemma jsSet_snoc: "jsSet (xs @ [x]) = (if x \<in> set (jsSet xs) then jsSet xs else jsSet xs @ [x])"
  unfolding jsSet_def by simp

lemma jsSet_Nil: "jsSet [] = []"
  unfolding jsSet_def by simp

lemma set_jsSet: "set (jsSet xs) = set xs"
  by (induction xs rule: rev_induct) (auto simp: jsSet_snoc jsSet_Nil)

lemma distinct_jsSet: "distinct (jsSet xs)"
  by (induction xs rule: rev_induct) (auto simp: jsSet_snoc jsSet_Nil)

lemma jsSet_first_seen: "jsSet xs = rev (remdups (rev xs))"
  by (induction xs rule: rev_induct) (auto simp: jsSet_snoc jsSet_Nil set_jsSet)

lemma bumpCount_map:
  "distinct xs \<Longrightarrow>
   bumpCount k (map (\<lambda>x. (x, c x)) xs) =
     (if k \<in> set xs then map (\<lambda>x. (x, if x = k then c x + 1 else c x)) xs
      else map (\<lambda>x. (x, c x)) xs @ [(k, 1)])"
  by (induction xs) auto

lemma count_list_snoc: "count_list (xs @ [k]) x = count_list xs x + (if x = k then 1 else 0)"
  by (induction xs) auto

lemma count_list_notin: "x \<notin> set xs \<Longrightarrow> count_list xs x = 0"
  by (induction xs) auto

lemma h2Counts_eq:
  "foldl (\<lambda>counts k. bumpCount k counts) [] ks = map (\<lambda>k. (k, count_list ks k)) (jsSet ks)"
proof (induction ks rule: rev_induct)
  case Nil
  show ?case by (simp add: jsSet_Nil)
next
  case (snoc k ks)
  have d: "distinct (jsSet ks)" by (rule distinct_jsSet)
  show ?case
  proof (cases "k \<in> set ks")
    case True
    then show ?thesis
      using snoc bumpCount_map [OF d, of k "count_list ks"]
      by (simp add: jsSet_snoc set_jsSet count_list_snoc)
  next
    case False
    then have "\<forall>x\<in>set (jsSet ks). x \<noteq> k" by (auto simp: set_jsSet)
    then have m: "map (\<lambda>x. (x, count_list (ks @ [k]) x)) (jsSet ks) = map (\<lambda>x. (x, count_list ks x)) (jsSet ks)"
      by (auto simp: count_list_snoc)
    from False show ?thesis
      using snoc bumpCount_map [OF d, of k "count_list ks"] m
      by (simp add: jsSet_snoc set_jsSet count_list_snoc count_list_notin)
  qed
qed

lemma insort_key_map: "insort_key f (g x) (map g ys) = map g (insort_key (\<lambda>y. f (g y)) x ys)"
  by (induction ys) auto

lemma sort_key_map: "sort_key f (map g xs) = map g (sort_key (\<lambda>y. f (g y)) xs)"
  by (induction xs) (simp_all add: insort_key_map)

lemma find_append_case:
  "find P (xs @ ys) = (case find P xs of Some x \<Rightarrow> Some x | None \<Rightarrow> find P ys)"
  by (induction xs) auto

text \<open>
  The one fact about \<^verbatim>\<open>lower\<close> that the casing lookup needs: it maps the
  empty string, and nothing else, to the empty string. (An empty heading that is found is
  falsy, and the lookup goes on to the next brief.)
\<close>

lemma originalCasing_first:
  assumes emp: "\<forall>h. (lower h = []) = (h = [])"
  shows "originalCasing lower briefs k =
     (case find (\<lambda>h. lower h = k) (concat (map h2Additions briefs)) of Some h \<Rightarrow> h | None \<Rightarrow> k)"
proof (induction briefs)
  case Nil
  show ?case by simp
next
  case (Cons b bs)
  show ?case
  proof (cases "find (\<lambda>h. lower h = k) (h2Additions b)")
    case None
    then show ?thesis using Cons by (simp add: find_append_case)
  next
    case (Some found)
    then have low: "lower found = k" by (auto simp: find_Some_iff)
    show ?thesis
    proof (cases "found = []")
      case False
      then show ?thesis using Some by (simp add: find_append_case)
    next
      case True
      from emp have "lower [] = []" by simp
      with low True have k: "k = []" by simp
      have "originalCasing lower bs k = []"
      proof (cases "find (\<lambda>h. lower h = k) (concat (map h2Additions bs))")
        case None
        then show ?thesis using Cons k by simp
      next
        case (Some h)
        then have "lower h = []" using k by (auto simp: find_Some_iff)
        then have "h = []" using emp by simp
        then show ?thesis using Cons Some by simp
      qed
      then show ?thesis using Some True by (simp add: find_append_case)
    qed
  qed
qed

lemma mergedH2s_spec:
  assumes emp: "\<forall>h. (lower h = []) = (h = [])"
  shows "mergedH2s lower briefs = specMergedHeadings lower (concat (map h2Additions briefs))"
proof -
  let ?all = "concat (map h2Additions briefs)"
  let ?keys = "map lower ?all"
  have c: "foldl (\<lambda>counts h2. bumpCount (lower h2) counts) [] ?all =
        map (\<lambda>k. (k, count_list ?keys k)) (jsSet ?keys)"
    using h2Counts_eq [of ?keys] by (simp add: foldl_map)
  have s: "sort_key (\<lambda>e. - int (snd e)) (map (\<lambda>k. (k, count_list ?keys k)) (jsSet ?keys)) =
        map (\<lambda>k. (k, count_list ?keys k)) (sort_key (\<lambda>k. - int (count_list ?keys k)) (jsSet ?keys))"
    by (simp add: sort_key_map)
  have m: "\<And>f ys. map (\<lambda>e. f (fst e)) (map (\<lambda>k. (k, count_list ?keys k)) ys) = map f ys"
    by (simp add: comp_def)
  have o: "originalCasing lower briefs = (\<lambda>k. case find (\<lambda>h. lower h = k) ?all of Some h \<Rightarrow> h | None \<Rightarrow> k)"
    by (rule ext) (rule originalCasing_first [OF emp])
  show ?thesis
    unfolding mergedH2s_def specMergedHeadings_def Let_def c s o
    by (simp add: jsSet_first_seen comp_def split: option.split)
qed

lemma find_lower_Some:
  assumes "k \<in> set (map lower allH)"
  shows "\<exists>h. find (\<lambda>h. lower h = k) allH = Some h \<and> lower h = k \<and> h \<in> set allH"
proof -
  from assms obtain h0 where "h0 \<in> set allH" "lower h0 = k" by auto
  then have "find (\<lambda>h. lower h = k) allH \<noteq> None" by (auto simp: find_None_iff)
  then obtain h where h: "find (\<lambda>h. lower h = k) allH = Some h" by auto
  then have "lower h = k" "h \<in> set allH"
    by (auto simp: find_Some_iff in_set_conv_nth)
  with h show ?thesis by blast
qed

lemma specMergedHeadings_lower:
  "map lower (specMergedHeadings lower allH) =
     sort_key (\<lambda>k. - int (count_list (map lower allH) k))
       (rev (remdups (rev (map lower allH))))"
proof -
  let ?keys = "map lower allH"
  let ?ranked = "sort_key (\<lambda>k. - int (count_list ?keys k)) (rev (remdups (rev ?keys)))"
  have "\<forall>k\<in>set ?ranked. lower (case find (\<lambda>h. lower h = k) allH of Some h \<Rightarrow> h | None \<Rightarrow> k) = k"
  proof
    fix k assume "k \<in> set ?ranked"
    then have "k \<in> set ?keys" by simp
    from find_lower_Some [OF this] show
      "lower (case find (\<lambda>h. lower h = k) allH of Some h \<Rightarrow> h | None \<Rightarrow> k) = k"
      by auto
  qed
  then have "map (\<lambda>k. lower (case find (\<lambda>h. lower h = k) allH of Some h \<Rightarrow> h | None \<Rightarrow> k)) ?ranked = ?ranked"
    by (intro map_idI) blast
  then show ?thesis unfolding specMergedHeadings_def Let_def
    by (simp only: map_map comp_def)
qed

text \<open>
  What the specification's heading list is: lower-cased, it has no duplicate and holds
  exactly the lower-cased headings of the contributors; every heading in it is one a
  contributor wrote; the frequencies along it never increase; and the headings of any one
  frequency stand in the order in which they were first seen.
\<close>

lemma specMergedHeadings_properties:
  "distinct (map lower (specMergedHeadings lower allH)) \<and>
   set (map lower (specMergedHeadings lower allH)) = set (map lower allH) \<and>
   set (specMergedHeadings lower allH) \<subseteq> set allH \<and>
   sorted (map (\<lambda>h. - int (count_list (map lower allH) (lower h))) (specMergedHeadings lower allH)) \<and>
   (\<forall>n. filter (\<lambda>k. count_list (map lower allH) k = n) (map lower (specMergedHeadings lower allH)) =
        filter (\<lambda>k. count_list (map lower allH) k = n) (rev (remdups (rev (map lower allH)))))"
proof -
  let ?keys = "map lower allH"
  let ?f = "\<lambda>k. - int (count_list ?keys k)"
  let ?first = "rev (remdups (rev ?keys))"
  let ?ranked = "sort_key ?f ?first"
  note low = specMergedHeadings_lower [of lower allH]
  have d: "distinct (map lower (specMergedHeadings lower allH))"
    unfolding low by (simp add: distinct_sort)
  have s: "set (map lower (specMergedHeadings lower allH)) = set ?keys"
    unfolding low by simp
  have sub: "set (specMergedHeadings lower allH) \<subseteq> set allH"
  proof
    fix h assume "h \<in> set (specMergedHeadings lower allH)"
    then obtain k where k: "k \<in> set ?ranked"
      and h: "h = (case find (\<lambda>h. lower h = k) allH of Some h \<Rightarrow> h | None \<Rightarrow> k)"
      unfolding specMergedHeadings_def Let_def by auto
    from k have "k \<in> set ?keys" by simp
    from find_lower_Some [OF this] h show "h \<in> set allH" by auto
  qed
  have "map (\<lambda>h. ?f (lower h)) (specMergedHeadings lower allH) = map ?f (map lower (specMergedHeadings lower allH))"
    by (simp add: comp_def)
  also have "\<dots> = map ?f ?ranked" by (simp only: low)
  finally have so: "sorted (map (\<lambda>h. ?f (lower h)) (specMergedHeadings lower allH))"
    by (simp only: sorted_sort_key)
  have st: "\<forall>n. filter (\<lambda>k. count_list ?keys k = n) (map lower (specMergedHeadings lower allH)) =
        filter (\<lambda>k. count_list ?keys k = n) ?first"
  proof
    fix n
    have "filter (\<lambda>k. ?f k = - int n) ?ranked = filter (\<lambda>k. ?f k = - int n) ?first"
      by (rule sort_key_stable)
    then show "filter (\<lambda>k. count_list ?keys k = n) (map lower (specMergedHeadings lower allH)) =
        filter (\<lambda>k. count_list ?keys k = n) ?first"
      unfolding low by simp
  qed
  from d s sub so st show ?thesis by blast
qed

lemma map_filter_all_some:
  "\<forall>x\<in>set xs. \<exists>y. f x = Some y \<Longrightarrow> List.map_filter f xs = map (\<lambda>x. the (f x)) xs"
  by (induction xs) auto

lemma sortByWeight_sorted:
  assumes "\<forall>c\<in>set cs. \<exists>b. contribBrief c = Some b"
    and "\<forall>c\<in>set cs. contribWeight c = weightOrZero bw (contribModelId c)"
  shows "map snd (sortByWeight (sort_key (\<lambda>c. - contribWeight c) cs) bw) =
         List.map_filter contribBrief (sort_key (\<lambda>c. - contribWeight c) cs)"
proof -
  let ?S = "sort_key (\<lambda>c. - contribWeight c) cs"
  let ?pair = "\<lambda>c. map_option (Pair (contribModelId c)) (contribBrief c)"
  have all: "\<forall>c\<in>set ?S. \<exists>b. contribBrief c = Some b" using assms(1) by (simp only: set_sort)
  then have allp: "\<forall>c\<in>set ?S. \<exists>y. ?pair c = Some y" by auto
  have P: "List.map_filter ?pair ?S = map (\<lambda>c. the (?pair c)) ?S"
    using map_filter_all_some [OF allp] .
  have keys: "map (\<lambda>p. - weightOrZero bw (fst p)) (map (\<lambda>c. the (?pair c)) ?S) =
              map (\<lambda>c. - contribWeight c) ?S"
    using all assms(2) by (auto simp: comp_def)
  have "sorted (map (\<lambda>c. - contribWeight c) ?S)" by (rule sorted_sort_key)
  then have "sorted (map (\<lambda>p. - weightOrZero bw (fst p)) (map (\<lambda>c. the (?pair c)) ?S))"
    by (simp only: keys)
  then have id: "sort_key (\<lambda>p. - weightOrZero bw (fst p)) (map (\<lambda>c. the (?pair c)) ?S) =
                 map (\<lambda>c. the (?pair c)) ?S"
    by (rule sort_key_id_if_sorted)
  have B: "List.map_filter contribBrief ?S = map (\<lambda>c. the (contribBrief c)) ?S"
    using map_filter_all_some [OF all] .
  have "map snd (map (\<lambda>c. the (?pair c)) ?S) = map (\<lambda>c. the (contribBrief c)) ?S"
    using all by (auto simp: comp_def)
  then show ?thesis unfolding sortByWeight_def P id B .
qed

lemma mergeBriefs_h2:
  "mergeBriefs lower cs bw page bkt = Inr merged \<Longrightarrow>
   h2Additions merged = mergedH2s lower (map snd (sortByWeight cs bw))"
  unfolding mergeBriefs_def buildMerged_def by (auto simp: Let_def split: list.splits)

lemma collect_unwrap:
  "List.map_filter contribBrief (collectFulfilled bw page bkt adapters) =
   List.map_filter (\<lambda>a. generateBrief a page bkt) adapters"
  unfolding collectFulfilled_def contributionOf_def
  by (induction adapters) (auto split: option.splits)

lemma merged_headings_spec:
  assumes emp: "\<forall>h. (lower h = []) = (h = [])"
    and m: "mergeBriefs lower (sort_key (\<lambda>c. - contribWeight c) cs) bw page bkt = Inr merged"
    and b: "\<forall>c\<in>set cs. \<exists>b. contribBrief c = Some b"
    and w: "\<forall>c\<in>set cs. contribWeight c = weightOrZero bw (contribModelId c)"
  shows "h2Additions merged =
         specMergedHeadings lower
           (concat (map h2Additions (List.map_filter contribBrief (sort_key (\<lambda>c. - contribWeight c) cs))))"
proof -
  have "h2Additions merged =
        mergedH2s lower (List.map_filter contribBrief (sort_key (\<lambda>c. - contribWeight c) cs))"
    using mergeBriefs_h2 [OF m] sortByWeight_sorted [OF b w] by simp
  then show ?thesis by (simp only: mergedH2s_spec [OF emp])
qed

text \<open>With two or more fulfilled contributions the outcome is that of the aggregation.\<close>

lemma generateConsensus_several:
  assumes "2 \<le> length (collectFulfilled (mw bkt) page bkt adapters)"
  shows "generateConsensus lower thr adapters page bkt mw =
         aggregate lower thr (collectFulfilled (mw bkt) page bkt adapters) (mw bkt) page bkt"
proof -
  have "length (collectFulfilled (mw bkt) page bkt adapters) \<le> length adapters"
    unfolding collect_length by (rule length_filter_le)
  with assms have n1: "length adapters \<noteq> 1" by simp
  from assms have n0: "collectFulfilled (mw bkt) page bkt adapters \<noteq> []"
    and n2: "length (collectFulfilled (mw bkt) page bkt adapters) \<noteq> 1" by auto
  show ?thesis unfolding generateConsensus_def using n1 n0 n2 by (simp add: Let_def)
qed

text \<open>A confidence at or above the threshold gives the merge.\<close>

lemma aggregate_reached:
  assumes "calculateConfidence lower (List.map_filter contribBrief cs) = Some c" and "thr \<le> c"
    and "mergeBriefs lower (sort_key (\<lambda>c. - contribWeight c) cs) bw page bkt = Inr merged"
  shows "\<exists>r. aggregate lower thr cs bw page bkt = Inr r \<and> consensusStrategy r = CS_consensus \<and>
             confidence r = Some c \<and> contributions r = sort_key (\<lambda>c. - contribWeight c) cs \<and>
             h2Additions (brief r) = h2Additions merged"
  unfolding aggregate_def using assms by (simp add: Let_def reachesThreshold_def tagBrief_def)

lemma aggregate_consensus:
  assumes "aggregate lower thr cs bw page bkt = Inr r" and "consensusStrategy r = CS_consensus"
  shows "reachesThreshold (confidence r) thr \<and>
         contributions r = sort_key (\<lambda>c. - contribWeight c) cs \<and>
         (\<exists>merged. mergeBriefs lower (sort_key (\<lambda>c. - contribWeight c) cs) bw page bkt = Inr merged \<and>
                   h2Additions (brief r) = h2Additions merged)"
proof (cases "reachesThreshold (calculateConfidence lower (List.map_filter contribBrief cs)) thr")
  case True
  then show ?thesis using assms unfolding aggregate_def
    by (cases "mergeBriefs lower (sort_key (\<lambda>c. - contribWeight c) cs) bw page bkt")
       (auto simp: Let_def tagBrief_def)
next
  case False
  then show ?thesis using assms unfolding aggregate_def
    by (cases "contribBrief (hd (sort_key (\<lambda>c. - contribWeight c) cs))") (auto simp: Let_def)
qed

lemma generateConsensus_consensus:
  assumes "generateConsensus lower thr adapters page bkt mw = Inr r" and "consensusStrategy r = CS_consensus"
  shows "aggregate lower thr (collectFulfilled (mw bkt) page bkt adapters) (mw bkt) page bkt = Inr r"
proof -
  let ?cs = "collectFulfilled (mw bkt) page bkt adapters"
  have n1: "length adapters \<noteq> 1"
  proof
    assume one: "length adapters = 1"
    from assms show False unfolding generateConsensus_one [OF one]
      by (cases "generateBrief (hd adapters) page bkt") auto
  qed
  have n0: "length ?cs \<noteq> 0" using assms(1) n1 unfolding generateConsensus_def by (auto simp: Let_def)
  have n2: "length ?cs \<noteq> 1"
  proof
    assume l: "length ?cs = 1"
    then have ne: "?cs \<noteq> []" by auto
    have "generateConsensus lower thr adapters page bkt mw =
        (case contribBrief (hd ?cs) of
           None \<Rightarrow> Inl TypeError
         | Some b \<Rightarrow>
             Inr \<lparr> brief = b, confidence = Some 1, contributions = ?cs,
                   primaryModel = contribModelId (hd ?cs), consensusStrategy = CS_single \<rparr>)"
      unfolding generateConsensus_def using n1 l ne by (simp add: Let_def)
    with assms show False by (cases "contribBrief (hd ?cs)") auto
  qed
  from assms(1) n1 n0 n2 show ?thesis unfolding generateConsensus_def by (simp add: Let_def)
qed

text \<open>
  Conversely, an outcome with strategy consensus is one whose confidence reached the
  threshold, and its heading list is the merged one.
\<close>

lemma consensus_only_when_reached:
  assumes "\<forall>h. (lower h = []) = (h = [])"
    and "generateConsensus lower thr adapters page bkt mw = Inr r"
    and "consensusStrategy r = CS_consensus"
  shows "reachesThreshold (confidence r) thr \<and>
         contributions r =
           sort_key (\<lambda>c. - contribWeight c) (collectFulfilled (mw bkt) page bkt adapters) \<and>
         h2Additions (brief r) =
           specMergedHeadings lower
             (concat (map h2Additions (List.map_filter contribBrief (contributions r))))"
proof -
  let ?cs = "collectFulfilled (mw bkt) page bkt adapters"
  let ?S = "sort_key (\<lambda>c. - contribWeight c) ?cs"
  from generateConsensus_consensus [OF assms(2,3)]
  have a: "aggregate lower thr ?cs (mw bkt) page bkt = Inr r" .
  from aggregate_consensus [OF a assms(3)] obtain merged where
    t: "reachesThreshold (confidence r) thr" and c: "contributions r = ?S"
    and m: "mergeBriefs lower ?S (mw bkt) page bkt = Inr merged"
    and h: "h2Additions (brief r) = h2Additions merged" by blast
  have b: "\<forall>c\<in>set ?cs. \<exists>b. contribBrief c = Some b"
    using collect_briefs [of _ "mw bkt" page bkt adapters] by blast
  have w: "\<forall>c\<in>set ?cs. contribWeight c = weightOrZero (mw bkt) (contribModelId c)"
    using collect_weight [of _ "mw bkt" page bkt adapters] by blast
  from merged_headings_spec [OF assms(1) m b w] h t c show ?thesis by simp
qed

text \<open>
  Claim C6. Let two or more adapters succeed, and let the confidence computed from
  their briefs be at or above the threshold (equality included). Then
  \<^verbatim>\<open>generateConsensus\<close> returns with strategy consensus and that confidence. The
  outcome lists the fulfilled contributions by descending weight (a stable sort, so
  adapter order among equal weights): that is the provider order. The heading list of
  its brief is the one the specification describes, over the headings of those
  contributions in that order: the lower-cased headings without duplicates, ranked by
  descending number of occurrences, first seen first among equals, each in the casing of
  its first occurrence. This holds for every lower-casing function that maps the empty
  string, and nothing else, to the empty string.
\<close>

theorem consensus_merged_headings:
  assumes "\<forall>h. (lower h = []) = (h = [])"
    and "2 \<le> length (List.map_filter (\<lambda>a. generateBrief a page bkt) adapters)"
    and "calculateConfidence lower (List.map_filter (\<lambda>a. generateBrief a page bkt) adapters) = Some c"
    and "thr \<le> c"
  shows "\<exists>r. generateConsensus lower thr adapters page bkt mw = Inr r \<and>
             consensusStrategy r = CS_consensus \<and> confidence r = Some c \<and>
             contributions r =
               sort_key (\<lambda>c. - contribWeight c) (collectFulfilled (mw bkt) page bkt adapters) \<and>
             h2Additions (brief r) =
               specMergedHeadings lower
                 (concat (map h2Additions (List.map_filter contribBrief (contributions r))))"
proof -
  let ?cs = "collectFulfilled (mw bkt) page bkt adapters"
  let ?S = "sort_key (\<lambda>c. - contribWeight c) ?cs"
  have len: "2 \<le> length ?cs"
    using assms(2) by (simp only: collect_length length_map_filter_eq)
  then have ne: "?cs \<noteq> []" by auto
  have b: "\<forall>c\<in>set ?cs. \<exists>b. contribBrief c = Some b"
    using collect_briefs [of _ "mw bkt" page bkt adapters] by blast
  have w: "\<forall>c\<in>set ?cs. contribWeight c = weightOrZero (mw bkt) (contribModelId c)"
    using collect_weight [of _ "mw bkt" page bkt adapters] by blast
  have sne: "?S \<noteq> []" using ne by (rule sort_key_nonempty)
  have sb: "\<forall>c\<in>set ?S. \<exists>b. contribBrief c = Some b" using b by (simp only: set_sort)
  obtain merged where m: "mergeBriefs lower ?S (mw bkt) page bkt = Inr merged"
    using mergeBriefs_ok [OF sne sb] by blast
  have conf: "calculateConfidence lower (List.map_filter contribBrief ?cs) = Some c"
    using assms(3) by (simp only: collect_unwrap)
  from aggregate_reached [OF conf assms(4) m] obtain r where
    a: "aggregate lower thr ?cs (mw bkt) page bkt = Inr r"
    and s: "consensusStrategy r = CS_consensus" and cf: "confidence r = Some c"
    and cr: "contributions r = ?S" and h: "h2Additions (brief r) = h2Additions merged" by blast
  have g: "generateConsensus lower thr adapters page bkt mw = Inr r"
    using generateConsensus_several
      [where mw = mw and bkt = bkt and page = page and adapters = adapters and lower = lower
         and thr = thr] len a
    by simp
  have "h2Additions (brief r) =
        specMergedHeadings lower (concat (map h2Additions (List.map_filter contribBrief (contributions r))))"
    using merged_headings_spec [OF assms(1) m b w] h cr by simp
  with g s cf cr show ?thesis by blast
qed

text \<open>
  The scenario: the three briefs agree to 8/9. With equal weights the providers stand in
  adapter order and the merged headings are A (three occurrences), then B (first seen
  with the first provider) and C (first seen with the second). With the second provider
  holding the highest weight it stands first, and C is seen before B. With the threshold
  at 8/9 itself the briefs are still merged. Two briefs whose headings differ in case
  only where they agree: every heading appears once, in the casing of its first
  occurrence.
\<close>

lemma scenario_fulfilled:
  "2 \<le> length (List.map_filter (\<lambda>a. generateBrief a typicalPage CTR_FIX) scenarioAdapters)"
  by code_simp

lemma scenario_confidence:
  "calculateConfidence asciiLower
     (List.map_filter (\<lambda>a. generateBrief a typicalPage CTR_FIX) scenarioAdapters) = Some (8 / 9)"
  by code_simp

lemma scenario_equal_weights:
  "specMergedHeadings asciiLower
     (concat (map h2Additions (List.map_filter contribBrief
        (sort_key (\<lambda>c. - contribWeight c)
           (collectFulfilled (DEFAULT_MODEL_WEIGHTS CTR_FIX) typicalPage CTR_FIX scenarioAdapters))))) =
   [''A'', ''B'', ''C'']"
  by code_simp

lemma scenario_openai_first:
  "specMergedHeadings asciiLower
     (concat (map h2Additions (List.map_filter contribBrief
        (sort_key (\<lambda>c. - contribWeight c)
           (collectFulfilled (openaiFirst CTR_FIX) typicalPage CTR_FIX scenarioAdapters))))) =
   [''A'', ''C'', ''B'']"
  by code_simp

lemma cased_fulfilled:
  "2 \<le> length (List.map_filter (\<lambda>a. generateBrief a typicalPage CTR_FIX) casedAdapters)"
  by code_simp

lemma cased_confidence:
  "calculateConfidence asciiLower
     (List.map_filter (\<lambda>a. generateBrief a typicalPage CTR_FIX) casedAdapters) = Some (11 / 12)"
  by code_simp

lemma cased_headings:
  "specMergedHeadings asciiLower
     (concat (map h2Additions (List.map_filter contribBrief
        (sort_key (\<lambda>c. - contribWeight c)
           (collectFulfilled (DEFAULT_MODEL_WEIGHTS CTR_FIX) typicalPage CTR_FIX casedAdapters))))) =
   [''Pricing'', ''FAQ'', ''Setup'']"
  by code_simp

text \<open>The code itself, run on the scenario at the threshold and just above it.\<close>

lemma scenario_at_threshold:
  "(case generateConsensus asciiLower (8 / 9) scenarioAdapters typicalPage CTR_FIX DEFAULT_MODEL_WEIGHTS of
      Inl e \<Rightarrow> False
    | Inr r \<Rightarrow> consensusStrategy r = CS_consensus \<and> confidence r = Some (8 / 9) \<and>
               h2Additions (brief r) = [''A'', ''B'', ''C''])"
  by code_simp

lemma scenario_above_threshold:
  "(case generateConsensus asciiLower 0.9 scenarioAdapters typicalPage CTR_FIX DEFAULT_MODEL_WEIGHTS of
      Inl e \<Rightarrow> False
    | Inr r \<Rightarrow> consensusStrategy r = CS_primary \<and> confidence r = Some (8 / 9) \<and>
               h2Additions (brief r) = [''A'', ''B''])"
  by code_simp

theorem consensus_merged_headings_witness:
  "calculateConfidence asciiLower
     (List.map_filter (\<lambda>a. generateBrief a typicalPage CTR_FIX) scenarioAdapters) = Some (8 / 9) \<and>
   (\<exists>r. generateConsensus asciiLower 0.7 scenarioAdapters typicalPage CTR_FIX DEFAULT_MODEL_WEIGHTS = Inr r \<and>
        consensusStrategy r = CS_consensus \<and> confidence r = Some (8 / 9) \<and>
        h2Additions (brief r) = [''A'', ''B'', ''C'']) \<and>
   (\<exists>r. generateConsensus asciiLower (8 / 9) scenarioAdapters typicalPage CTR_FIX DEFAULT_MODEL_WEIGHTS = Inr r \<and>
        consensusStrategy r = CS_consensus \<and> confidence r = Some (8 / 9) \<and>
        h2Additions (brief r) = [''A'', ''B'', ''C'']) \<and>
   (\<exists>r. generateConsensus asciiLower 0.7 scenarioAdapters typicalPage CTR_FIX openaiFirst = Inr r \<and>
        consensusStrategy r = CS_consensus \<and>
        h2Additions (brief r) = [''A'', ''C'', ''B'']) \<and>
   (\<exists>r. generateConsensus asciiLower 0.7 casedAdapters typicalPage CTR_FIX DEFAULT_MODEL_WEIGHTS = Inr r \<and>
        consensusStrategy r = CS_consensus \<and>
        h2Additions (brief r) = [''Pricing'', ''FAQ'', ''Setup''])"
proof -
  have e: "\<forall>h. (asciiLower h = []) = (h = [])" by (simp add: asciiLower_def)
  have t1: "(0.7::real) \<le> 8 / 9" by simp
  have t2: "(8 / 9::real) \<le> 8 / 9" by simp
  have t3: "(0.7::real) \<le> 11 / 12" by simp
  have c1: "\<exists>r. generateConsensus asciiLower 0.7 scenarioAdapters typicalPage CTR_FIX DEFAULT_MODEL_WEIGHTS = Inr r \<and>
        consensusStrategy r = CS_consensus \<and> confidence r = Some (8 / 9) \<and>
        h2Additions (brief r) = [''A'', ''B'', ''C'']"
    using consensus_merged_headings
      [OF e scenario_fulfilled scenario_confidence t1, where mw = DEFAULT_MODEL_WEIGHTS]
    by (auto simp: scenario_equal_weights)
  have c2: "\<exists>r. generateConsensus asciiLower (8 / 9) scenarioAdapters typicalPage CTR_FIX DEFAULT_MODEL_WEIGHTS = Inr r \<and>
        consensusStrategy r = CS_consensus \<and> confidence r = Some (8 / 9) \<and>
        h2Additions (brief r) = [''A'', ''B'', ''C'']"
    using consensus_merged_headings
      [OF e scenario_fulfilled scenario_confidence t2, where mw = DEFAULT_MODEL_WEIGHTS]
    by (auto simp: scenario_equal_weights)
  have c3: "\<exists>r. generateConsensus asciiLower 0.7 scenarioAdapters typicalPage CTR_FIX openaiFirst = Inr r \<and>
        consensusStrategy r = CS_consensus \<and>
        h2Additions (brief r) = [''A'', ''C'', ''B'']"
    using consensus_merged_headings
      [OF e scenario_fulfilled scenario_confidence t1, where mw = openaiFirst]
    by (auto simp: scenario_openai_first)
  have c4: "\<exists>r. generateConsensus asciiLower 0.7 casedAdapters typicalPage CTR_FIX DEFAULT_MODEL_WEIGHTS = Inr r \<and>
        consensusStrategy r = CS_consensus \<and>
        h2Additions (brief r) = [''Pricing'', ''FAQ'', ''Setup'']"
    using consensus_merged_headings
      [OF e cased_fulfilled cased_confidence t3, where mw = DEFAULT_MODEL_WEIGHTS]
    by (auto simp: cased_headings)
  from scenario_confidence c1 c2 c3 c4 show ?thesis by blast
qed

section \<open>The merge step as a function of what it reads\<close>

lemma present_cong:
  "map contribModelId xs = map contribModelId ys \<Longrightarrow> map contribBrief xs = map contribBrief ys \<Longrightarrow>
   List.map_filter (\<lambda>c. map_option (Pair (contribModelId c)) (contribBrief c)) xs =
   List.map_filter (\<lambda>c. map_option (Pair (contribModelId c)) (contribBrief c)) ys"
proof (induction xs arbitrary: ys)
  case Nil
  then show ?case by simp
next
  case (Cons x xs)
  then obtain y ys' where ys: "ys = y # ys'" by (cases ys) auto
  with Cons.prems have "contribModelId x = contribModelId y" "contribBrief x = contribBrief y"
    "map contribModelId xs = map contribModelId ys'" "map contribBrief xs = map contribBrief ys'"
    by simp_all
  with Cons.IH [of ys'] ys show ?case by (cases "contribBrief y") simp_all
qed

lemma present_ids:
  "p \<in> set (List.map_filter (\<lambda>c. map_option (Pair (contribModelId c)) (contribBrief c)) cs) \<Longrightarrow>
   fst p \<in> contribModelId ` set cs"
  unfolding List.map_filter_def by auto

lemma insort_key_cong_on:
  "f x = g x \<Longrightarrow> \<forall>y\<in>set ys. f y = g y \<Longrightarrow> insort_key f x ys = insort_key g x ys"
  by (induction ys) auto

lemma sort_key_cong_on: "\<forall>x\<in>set xs. f x = g x \<Longrightarrow> sort_key f xs = sort_key g xs"
proof (induction xs)
  case Nil
  show ?case by simp
next
  case (Cons x xs)
  then have "sort_key f xs = sort_key g xs" by simp
  moreover have "insort_key f x (sort_key g xs) = insort_key g x (sort_key g xs)"
    using Cons.prems by (intro insort_key_cong_on) simp_all
  ultimately show ?case by simp
qed

lemma foldl_cong_on:
  "\<forall>x\<in>set xs. \<forall>a. f a x = g a x \<Longrightarrow> foldl f a xs = foldl g a xs"
  by (induction xs arbitrary: a) simp_all

lemma buildMerged_cong:
  assumes "\<forall>c\<in>set sortedCs. weightOrZero w1 (fst c) = weightOrZero w2 (fst c)"
    and "url p1 = url p2" and "primaryKeyword p1 = primaryKeyword p2"
  shows "buildMerged lower sortedCs pb w1 p1 bkt = buildMerged lower sortedCs pb w2 p2 bkt"
proof -
  have t: "foldl (\<lambda>t c. t + weightOrZero w1 (fst c)) 0 sortedCs =
           foldl (\<lambda>t c. t + weightOrZero w2 (fst c)) 0 sortedCs"
    using assms(1) by (intro foldl_cong_on) simp
  have ww: "foldl (\<lambda>t c. t + targetWordCount (snd c) * weightOrZero w1 (fst c)) 0 sortedCs =
            foldl (\<lambda>t c. t + targetWordCount (snd c) * weightOrZero w2 (fst c)) 0 sortedCs"
    using assms(1) by (intro foldl_cong_on) simp
  show ?thesis unfolding buildMerged_def t ww using assms(2,3) by simp
qed

text \<open>
  Claim C7. \<^verbatim>\<open>mergeBriefs\<close> assigns to none of its arguments (it sorts a filtered
  copy of the contributions), and its result is a function of what it reads: the model
  ids and briefs of the contributions, the weights of those models in the snapshot, the
  URL and keyword of the page, and the bucket. Two runs on inputs that agree on these
  return the same merged brief, field by field; two runs on the same inputs in particular.
\<close>

theorem mergeBriefs_deterministic:
  assumes "map contribModelId cs1 = map contribModelId cs2"
    and "map contribBrief cs1 = map contribBrief cs2"
    and "\<forall>c\<in>set cs1. w1 (contribModelId c) = w2 (contribModelId c)"
    and "url p1 = url p2" and "primaryKeyword p1 = primaryKeyword p2"
  shows "mergeBriefs lower cs1 w1 p1 bkt = mergeBriefs lower cs2 w2 p2 bkt"
proof -
  let ?present = "\<lambda>cs. List.map_filter (\<lambda>c. map_option (Pair (contribModelId c)) (contribBrief c)) cs"
  have pe: "?present cs1 = ?present cs2" using present_cong [OF assms(1,2)] .
  have wz: "\<forall>p\<in>set (?present cs1). weightOrZero w1 (fst p) = weightOrZero w2 (fst p)"
  proof
    fix p assume "p \<in> set (?present cs1)"
    then have "fst p \<in> contribModelId ` set cs1" by (rule present_ids)
    then show "weightOrZero w1 (fst p) = weightOrZero w2 (fst p)"
      using assms(3) unfolding weightOrZero_def by auto
  qed
  have "sort_key (\<lambda>c. - weightOrZero w1 (fst c)) (?present cs1) =
        sort_key (\<lambda>c. - weightOrZero w2 (fst c)) (?present cs1)"
    using wz by (intro sort_key_cong_on) simp
  then have se: "sortByWeight cs1 w1 = sortByWeight cs2 w2"
    unfolding sortByWeight_def pe by simp
  have ws: "\<forall>c\<in>set (sortByWeight cs2 w2). weightOrZero w1 (fst c) = weightOrZero w2 (fst c)"
    using wz unfolding sortByWeight_def pe by (simp only: set_sort)
  show ?thesis
  proof (cases "sortByWeight cs2 w2")
    case Nil
    then show ?thesis unfolding mergeBriefs_def se by (simp add: Let_def)
  next
    case (Cons c rest)
    then show ?thesis
      unfolding mergeBriefs_def se
      using buildMerged_cong [OF ws assms(4,5), where pb = "snd c" and bkt = bkt and lower = lower] by (simp add: Let_def)
  qed
qed

theorem mergeBriefs_deterministic_witness:
  "map contribModelId recordedA = map contribModelId recordedB \<and>
   map contribBrief recordedA = map contribBrief recordedB \<and>
   recordedA \<noteq> recordedB \<and>
   uniformRow claude = grokHeavy claude \<and> uniformRow openai = grokHeavy openai \<and>
   uniformRow grok \<noteq> grokHeavy grok \<and>
   url typicalPage = url otherPage \<and> primaryKeyword typicalPage = primaryKeyword otherPage \<and>
   typicalPage \<noteq> otherPage \<and>
   mergeBriefs asciiLower recordedA uniformRow typicalPage CTR_FIX =
     mergeBriefs asciiLower recordedB grokHeavy otherPage CTR_FIX \<and>
   mergeBriefs asciiLower recordedA uniformRow typicalPage CTR_FIX =
     mergeBriefs asciiLower recordedA uniformRow typicalPage CTR_FIX"
proof -
  have i: "map contribModelId recordedA = map contribModelId recordedB"
    by (simp add: recordedA_def recordedB_def)
  have b: "map contribBrief recordedA = map contribBrief recordedB"
    by (simp add: recordedA_def recordedB_def)
  have n: "recordedA \<noteq> recordedB"
    by (simp add: recordedA_def recordedB_def contributionOf_def uniformRow_def)
  have w: "\<forall>c\<in>set recordedA. uniformRow (contribModelId c) = grokHeavy (contribModelId c)"
    by (simp add: recordedA_def contributionOf_def grokHeavy_def)
  have wc: "uniformRow claude = grokHeavy claude" and wo: "uniformRow openai = grokHeavy openai"
    and wg: "uniformRow grok \<noteq> grokHeavy grok"
    by (simp_all add: grokHeavy_def uniformRow_def)
  have u: "url typicalPage = url otherPage" by (simp add: otherPage_def)
  have k: "primaryKeyword typicalPage = primaryKeyword otherPage" by (simp add: otherPage_def)
  have p: "typicalPage \<noteq> otherPage"
  proof
    assume "typicalPage = otherPage"
    then have "impressions typicalPage = impressions otherPage" by simp
    then show False by (simp add: otherPage_def typicalPage_def samplePage_def)
  qed
  from mergeBriefs_deterministic [OF i b w u k, of asciiLower CTR_FIX]
    mergeBriefs_deterministic
      [of recordedA recordedA uniformRow uniformRow typicalPage typicalPage asciiLower CTR_FIX]
    i b n wc wo wg u k p
  show ?thesis by simp
qed

end
